theory Spec2Isabelle
  imports Main "HOL-Library.Sublist"
begin

section \<open>The in-memory cache of server.js\<close>

text \<open>
  \<^verbatim>\<open>const cache = new Map();\<close> holds objects \<^verbatim>\<open>{ data, timestamp }\<close> under string
  keys. One map serves every endpoint, so the cached values are JSON values of
  different shapes. A JavaScript \<^verbatim>\<open>Map\<close> keeps its keys in insertion order and
  holds each key once; it is modelled as an association list, with
  \<^verbatim>\<open>set\<close> replacing in place or appending, as the \<^verbatim>\<open>Map\<close> does.

  Numbers are the integers (\<^verbatim>\<open>Date.now()\<close> is a count of milliseconds); strings are
  lists of 8-bit characters, exact for the ASCII strings that pass
  \<^verbatim>\<open>validateUsername\<close>.
\<close>

datatype json =
    JNull
  | JBool bool
  | JNum int
  | JStr string
  | JArr "json list"
  | JObj "(string \<times> json) list"

record cache_entry =
  data :: json
  timestamp :: int

type_synonym cache = "(string \<times> cache_entry) list"

definition cache_get :: "cache \<Rightarrow> string \<Rightarrow> cache_entry option" where
  "cache_get c key = map_of c key"

primrec cache_set :: "string \<Rightarrow> cache_entry \<Rightarrow> cache \<Rightarrow> cache" where
  "cache_set key e [] = [(key, e)]"
| "cache_set key e (p # ps) =
     (if fst p = key then (key, e) # ps else p # cache_set key e ps)"

definition cache_has :: "cache \<Rightarrow> string \<Rightarrow> bool" where
  "cache_has c key = (cache_get c key \<noteq> None)"

definition cache_delete :: "string \<Rightarrow> cache \<Rightarrow> cache" where
  "cache_delete key c = filter (\<lambda>p. fst p \<noteq> key) c"

definition cache_size :: "cache \<Rightarrow> nat" where
  "cache_size c = length c"

definition cache_clear :: "cache \<Rightarrow> cache" where
  "cache_clear c = []"

text \<open>Every key occurs once: the invariant of a \<^verbatim>\<open>Map\<close>.\<close>

definition cache_ok :: "cache \<Rightarrow> bool" where
  "cache_ok c = distinct (map fst c)"

text \<open>\<^verbatim>\<open>const CACHE_DURATION = 5 * 60 * 1000;\<close>\<close>

definition CACHE_DURATION :: int where
  "CACHE_DURATION = 5 * 60 * 1000"

subsection \<open>getFromCache\<close>

text \<open>
  \<^verbatim>\<open>
  function getFromCache(key, fn, duration = CACHE_DURATION) {
    const cached = cache.get(key);
    if (cached && Date.now() - cached.timestamp < duration) {
      return Promise.resolve(cached.data);
    }
    return fn().then(data => {
      cache.set(key, { data, timestamp: Date.now() });
      return data;
    });
  }
  \<close>
  The producer \<open>fn\<close> talks to an upstream service. The world outside the process
  is a state of type \<open>'u\<close>; a producer takes it and returns the new one together
  with either the message of the error it rejects with (\<open>Inl\<close>) or the value it
  resolves to (\<open>Inr\<close>). A producer that counts its invocations in \<open>'u\<close> is an
  instance. The state of the whole system is the cache paired with \<open>'u\<close>.
  A call runs from its freshness test to its \<^verbatim>\<open>then\<close> callback with no other
  request in between.

  \<open>now\<close> is the reading of \<^verbatim>\<open>Date.now()\<close> at the freshness test, \<open>later\<close> the
  reading inside the \<^verbatim>\<open>then\<close> callback, taken once the producer has resolved.
\<close>

type_synonym 'u producer = "'u \<Rightarrow> (string + json) \<times> 'u"

definition fresh :: "cache \<Rightarrow> string \<Rightarrow> int \<Rightarrow> int \<Rightarrow> bool" where
  "fresh c key duration now =
     (case cache_get c key of
        None \<Rightarrow> False
      | Some cached \<Rightarrow> now - timestamp cached < duration)"

text \<open>
  \<open>store_result\<close> is the miss path,
  \<^verbatim>\<open>fn().then(data => { cache.set(key, { data, timestamp: Date.now() }); return data; })\<close>:
  a rejection of \<open>fn\<close> passes through and skips the callback.
\<close>

definition store_result ::
  "string \<Rightarrow> 'u producer \<Rightarrow> int \<Rightarrow> cache \<times> 'u \<Rightarrow> (string + json) \<times> (cache \<times> 'u)"
where
  "store_result key fn later s =
     (case fn (snd s) of
        (Inl err, u') \<Rightarrow> (Inl err, (fst s, u'))
      | (Inr d, u') \<Rightarrow>
          (Inr d, (cache_set key \<lparr>data = d, timestamp = later\<rparr> (fst s), u')))"

definition getFromCache ::
  "string \<Rightarrow> 'u producer \<Rightarrow> int \<Rightarrow> int \<Rightarrow> int \<Rightarrow> cache \<times> 'u \<Rightarrow> (string + json) \<times> (cache \<times> 'u)"
where
  "getFromCache key fn duration now later s =
     (case cache_get (fst s) key of
        Some cached \<Rightarrow>
          if now - timestamp cached < duration then (Inr (data cached), s)
          else store_result key fn later s
      | None \<Rightarrow> store_result key fn later s)"

section \<open>JavaScript values and strings\<close>

text \<open>Truthiness, as \<^verbatim>\<open>!x\<close> and \<^verbatim>\<open>x || y\<close> judge it.\<close>

fun truthy :: "json \<Rightarrow> bool" where
  "truthy JNull = False"
| "truthy (JBool b) = b"
| "truthy (JNum n) = (n \<noteq> 0)"
| "truthy (JStr s) = (s \<noteq> [])"
| "truthy (JArr xs) = True"
| "truthy (JObj fs) = True"

definition or_json :: "json \<Rightarrow> json \<Rightarrow> json" where
  "or_json x y = (if truthy x then x else y)"

definition or_str :: "string \<Rightarrow> string \<Rightarrow> string" where
  "or_str x y = (if x = [] then y else x)"

fun json_field :: "json \<Rightarrow> string \<Rightarrow> json option" where
  "json_field (JObj fs) k = map_of fs k"
| "json_field _ k = None"

text \<open>
  \<^verbatim>\<open>String.prototype.toLowerCase\<close> on ASCII text: the letters \<^verbatim>\<open>A\<close> to \<^verbatim>\<open>Z\<close>
  (codes 65 to 90) move to \<^verbatim>\<open>a\<close> to \<^verbatim>\<open>z\<close>, every other character stays. The
  handlers apply it to user names that have passed \<^verbatim>\<open>validateUsername\<close>, which are
  ASCII; it is not the case folding of other text.
\<close>

definition lower_char :: "char \<Rightarrow> char" where
  "lower_char c =
     (let n = of_char c :: nat in if 65 \<le> n \<and> n \<le> 90 then char_of (n + 32) else c)"

definition toLowerCase :: "string \<Rightarrow> string" where
  "toLowerCase s = map lower_char s"

text \<open>
  Two strings that differ only in letter case, said without \<open>toLowerCase\<close>:
  the same length, and at each position the same character or the two cases
  of one letter.
\<close>

definition is_upper :: "char \<Rightarrow> bool" where
  "is_upper c = (65 \<le> (of_char c :: nat) \<and> (of_char c :: nat) \<le> 90)"

definition same_letter :: "char \<Rightarrow> char \<Rightarrow> bool" where
  "same_letter a b =
     (a = b \<or> (is_upper a \<and> (of_char b :: nat) = of_char a + 32)
            \<or> (is_upper b \<and> (of_char a :: nat) = of_char b + 32))"

definition eq_ignore_case :: "string \<Rightarrow> string \<Rightarrow> bool" where
  "eq_ignore_case u v = list_all2 same_letter u v"

text \<open>
  A template literal renders a number in decimal. \<open>dec\<close> is the rendering of a
  natural number, \<open>num_to_string\<close> that of an integer (exact for the integers a
  double holds exactly, up to \<open>2 ^ 53\<close> in size).
\<close>

definition digit_char :: "nat \<Rightarrow> char" where
  "digit_char d = char_of (48 + d)"

fun dec :: "nat \<Rightarrow> string" where
  "dec n = (if n < 10 then [digit_char n] else dec (n div 10) @ [digit_char (n mod 10)])"

declare dec.simps [simp del]

definition num_to_string :: "int \<Rightarrow> string" where
  "num_to_string n = (if n < 0 then CHR ''-'' # dec (nat (- n)) else dec (nat n))"

section \<open>Request parameters and validation\<close>

text \<open>
  A query parameter of Express is absent (\<^verbatim>\<open>undefined\<close>), a string, or, for a
  repeated or bracketed parameter, an array or object (\<open>QOther\<close>, always truthy
  and never of type string).

  \<^verbatim>\<open>
  function validateUsername(username) {
    if (!username || typeof username !== 'string') {
      return false;
    }
    return username.length >= 3 && username.length <= 20 && /^[a-zA-Z0-9_-]+$/.test(username);
  }
  \<close>
  The regular expression asks for one or more characters, all of them letters,
  digits, underscores or hyphens; without the \<^verbatim>\<open>m\<close> flag \<^verbatim>\<open>$\<close> is the end of the
  string.
\<close>

datatype qparam = QAbsent | QString string | QOther

definition username_char :: "char \<Rightarrow> bool" where
  "username_char c =
     (let n = of_char c :: nat in
        (97 \<le> n \<and> n \<le> 122) \<or> (65 \<le> n \<and> n \<le> 90) \<or> (48 \<le> n \<and> n \<le> 57)
        \<or> c = CHR ''_'' \<or> c = CHR ''-'')"

fun validateUsername :: "qparam \<Rightarrow> bool" where
  "validateUsername QAbsent = False"
| "validateUsername QOther = False"
| "validateUsername (QString username) =
     (if username = [] then False
      else 3 \<le> length username \<and> length username \<le> 20
           \<and> username \<noteq> [] \<and> list_all username_char username)"

section \<open>Cache keys\<close>

text \<open>
  A value of \<^verbatim>\<open>req.query\<close> as the query parser of Express builds it: a string, an
  array (a repeated or bracketed parameter) or an object (a parameter with
  named brackets), nested at will. A template literal turns it into text as
  \<^verbatim>\<open>String\<close> does: a string is itself, an array is its elements joined by
  commas, an object is \<^verbatim>\<open>[object Object]\<close>. An object with a key \<^verbatim>\<open>toString\<close> of
  its own has no text: the template literal throws, and the handler answers
  500 before there is a key.
\<close>

datatype qvalue =
    QStr string
  | QArr "qvalue list"
  | QObj "(string \<times> qvalue) list"

fun join_commas :: "string list \<Rightarrow> string" where
  "join_commas [] = []"
| "join_commas [x] = x"
| "join_commas (x # y # ys) = x @ '','' @ join_commas (y # ys)"

fun render :: "qvalue \<Rightarrow> string" where
  "render (QStr s) = s"
| "render (QArr xs) = join_commas (map render xs)"
| "render (QObj fs) = ''[object Object]''"

fun renders :: "qvalue \<Rightarrow> bool" where
  "renders (QStr s) = True"
| "renders (QArr xs) = (\<forall>x \<in> set xs. renders x)"
| "renders (QObj fs) = (''toString'' \<notin> fst ` set fs)"

text \<open>
  The logical requests that reach the cache, one constructor for each route,
  holding what the route builds its key from:
  \<^verbatim>\<open>
  `player_${username.toLowerCase()}`          /api/player/search
  `player_profile_${playerId}`                /api/player/:playerId
  `ban_check_${username.toLowerCase()}`       /api/ban-check
  'ban_stats_global'                          /api/ban-stats
  `market_search_${query.toLowerCase()}`      /api/market/search
  `market_item_${itemId}`                     /api/market/item/:itemId
  `market_trending_${limitNum}`               /api/market/trending
  `market_history_${itemId}_${days}`          /api/market/history/:itemId
  \<close>
  \<^item> \<open>PlayerSearch\<close> and \<open>BanCheck\<close> hold the user name as sent.
  \<^item> \<open>MarketSearch\<close> holds \<^verbatim>\<open>query.toLowerCase()\<close>, the case folding of JavaScript
    applied to a query of any script: two searches are the same logical
    request when their folded queries are equal.
  \<^item> \<open>MarketTrending\<close> holds \<open>limitNum\<close>, the number
    \<^verbatim>\<open>Math.min(parseInt(limit) || 20, 100)\<close>.
  \<^item> \<open>MarketHistory\<close> holds \<open>itemId\<close> and the query parameter \<open>days\<close>, which may be
    absent: then \<^verbatim>\<open>const { days = 30 } = req.query\<close> makes it the number 30.
\<close>

datatype request =
    PlayerSearch string
  | PlayerProfile string
  | BanCheck string
  | BanStats
  | MarketSearch string
  | MarketItem string
  | MarketTrending int
  | MarketHistory string "qvalue option"

definition days_text :: "qvalue option \<Rightarrow> string" where
  "days_text days = (case days of None \<Rightarrow> num_to_string 30 | Some d \<Rightarrow> render d)"

fun cacheKey :: "request \<Rightarrow> string" where
  "cacheKey (PlayerSearch username) = ''player_'' @ toLowerCase username"
| "cacheKey (PlayerProfile playerId) = ''player_profile_'' @ playerId"
| "cacheKey (BanCheck username) = ''ban_check_'' @ toLowerCase username"
| "cacheKey BanStats = ''ban_stats_global''"
| "cacheKey (MarketSearch folded) = ''market_search_'' @ folded"
| "cacheKey (MarketItem itemId) = ''market_item_'' @ itemId"
| "cacheKey (MarketTrending limitNum) = ''market_trending_'' @ num_to_string limitNum"
| "cacheKey (MarketHistory itemId days) = ''market_history_'' @ itemId @ ''_'' @ days_text days"

text \<open>
  The requests for which the handler gets as far as the key, and for which
  the key above is the one the code builds: the user name has passed
  \<^verbatim>\<open>validateUsername\<close>, \<open>days\<close> has a text, and \<open>limitNum\<close> is a number that
  \<^verbatim>\<open>Math.min(parseInt(limit) || 20, 100)\<close> can be and that a double holds exactly.
\<close>

fun valid_request :: "request \<Rightarrow> bool" where
  "valid_request (PlayerSearch username) = validateUsername (QString username)"
| "valid_request (BanCheck username) = validateUsername (QString username)"
| "valid_request (MarketTrending limitNum) =
     (- (2 ^ 53) \<le> limitNum \<and> limitNum \<le> 100 \<and> limitNum \<noteq> 0)"
| "valid_request (MarketHistory itemId days) =
     (case days of None \<Rightarrow> True | Some d \<Rightarrow> renders d)"
| "valid_request _ = True"

text \<open>
  Two requests are the same logical request when they go to the same route
  with the same parameters, where user names count up to letter case and an
  absent \<open>days\<close> counts as the string \<^verbatim>\<open>30\<close>, which the service upstream receives
  in both cases.
\<close>

definition same_days :: "qvalue option \<Rightarrow> qvalue option \<Rightarrow> bool" where
  "same_days d e =
     (d = e \<or> (d = None \<and> e = Some (QStr ''30'')) \<or> (d = Some (QStr ''30'') \<and> e = None))"

fun same_request :: "request \<Rightarrow> request \<Rightarrow> bool" where
  "same_request (PlayerSearch u) (PlayerSearch v) = eq_ignore_case u v"
| "same_request (PlayerProfile p) (PlayerProfile q) = (p = q)"
| "same_request (BanCheck u) (BanCheck v) = eq_ignore_case u v"
| "same_request BanStats BanStats = True"
| "same_request (MarketSearch p) (MarketSearch q) = (p = q)"
| "same_request (MarketItem i) (MarketItem j) = (i = j)"
| "same_request (MarketTrending m) (MarketTrending n) = (m = n)"
| "same_request (MarketHistory i d) (MarketHistory j e) = (i = j \<and> same_days d e)"
| "same_request _ _ = False"

text \<open>
  The shapes in which the keys of two requests can run into each other.

  In a price-history key nothing tells where the item ends and the days
  begin. \<open>shifted i ti j tj\<close>: item \<open>i\<close> is item \<open>j\<close> followed by an underscore and
  some \<open>w\<close>, and the days text \<open>tj\<close> is that \<open>w\<close>, an underscore and the days text
  \<open>ti\<close>. Two price-history requests overlap when one is shifted against the
  other, or when they name the same item and their days have the same text
  (an array and the string of its elements joined by commas, any two objects).

  A player search and a player profile overlap when the user name in lower
  case is \<^verbatim>\<open>profile_\<close> followed by the player id.
\<close>

definition shifted :: "string \<Rightarrow> string \<Rightarrow> string \<Rightarrow> string \<Rightarrow> bool" where
  "shifted i ti j tj =
     (prefix (j @ ''_'') i \<and> tj = drop (Suc (length j)) i @ ''_'' @ ti)"

definition history_overlap :: "string \<Rightarrow> qvalue option \<Rightarrow> string \<Rightarrow> qvalue option \<Rightarrow> bool" where
  "history_overlap i d j e =
     (shifted i (days_text d) j (days_text e)
      \<or> shifted j (days_text e) i (days_text d)
      \<or> (i = j \<and> days_text d = days_text e))"

fun overlap :: "request \<Rightarrow> request \<Rightarrow> bool" where
  "overlap (MarketHistory i d) (MarketHistory j e) = history_overlap i d j e"
| "overlap (PlayerSearch u) (PlayerProfile p) = (toLowerCase u = ''profile_'' @ p)"
| "overlap (PlayerProfile p) (PlayerSearch u) = (toLowerCase u = ''profile_'' @ p)"
| "overlap _ _ = False"

section \<open>Upstream calls\<close>

text \<open>
  An \<^verbatim>\<open>axios\<close> call either rejects (no connection, the timeout, a status
  outside 2xx) with an error that has a message, or is fulfilled with the
  body of the response, \<^verbatim>\<open>response.data\<close>. A call is a function of the data
  sent and of the world outside, which it may change.

  The GraphQL service answers with an envelope. The handlers read two
  properties of it: \<^verbatim>\<open>errors\<close>, absent or a list of error objects, each with or
  without a \<^verbatim>\<open>message\<close>; and \<^verbatim>\<open>data\<close>, of which they read the one field they
  asked for. \<open>gql_data\<close> is \<open>None\<close> when \<^verbatim>\<open>response.data.data\<close> is \<^verbatim>\<open>null\<close> or
  missing, so that reading the field throws a \<^verbatim>\<open>TypeError\<close>; otherwise it is
  the value of the field, \<open>JNull\<close> when the service found nothing.
\<close>

datatype 'a axios_result = Rejected string | Fulfilled 'a

datatype gql_envelope =
  GqlEnvelope (gql_errors: "string option list option") (gql_data: "json option")

type_synonym ('a, 'u) axios_call = "json \<Rightarrow> 'u \<Rightarrow> 'a axios_result \<times> 'u"

text \<open>
  The message of the \<^verbatim>\<open>TypeError\<close> for reading a property of a missing value, in
  the wording of V8. The handlers only test it for emptiness.
\<close>

definition TypeError_undefined :: "string \<Rightarrow> string" where
  "TypeError_undefined prop =
     ''Cannot read properties of undefined (reading '' @ [CHR 0x27] @ prop @ [CHR 0x27] @ '')''"

text \<open>
  The producer of the three GraphQL lookups, which differ in the variables
  sent, the field read and the message of the error thrown:
  \<^verbatim>\<open>
  const response = await axios.post(TARKOV_API_BASE, { query, variables }, { timeout: 10000 });
  if (response.data.errors) {
    throw new Error(response.data.errors[0].message || 'Failed to fetch player data');
  }
  return response.data.data.playerByUsername;
  \<close>
  An empty \<^verbatim>\<open>errors\<close> array is truthy, and reading \<^verbatim>\<open>message\<close> of its missing first
  element throws.
\<close>

definition gql_fetch ::
  "(gql_envelope, 'u) axios_call \<Rightarrow> json \<Rightarrow> string \<Rightarrow> string \<Rightarrow> 'u producer"
where
  "gql_fetch axios_post variables field failed u =
     (case axios_post variables u of
        (Rejected message, u') \<Rightarrow> (Inl message, u')
      | (Fulfilled response_data, u') \<Rightarrow>
          (case gql_errors response_data of
             Some [] \<Rightarrow> (Inl (TypeError_undefined ''message''), u')
           | Some (e # es) \<Rightarrow>
               (Inl (case e of None \<Rightarrow> failed | Some m \<Rightarrow> or_str m failed), u')
           | None \<Rightarrow>
               (case gql_data response_data of
                  None \<Rightarrow> (Inl (TypeError_undefined field), u')
                | Some v \<Rightarrow> (Inr v, u'))))"

text \<open>The upstream call failed: it was rejected, or the envelope carries errors.\<close>

fun gql_failed :: "gql_envelope axios_result \<Rightarrow> bool" where
  "gql_failed (Rejected message) = True"
| "gql_failed (Fulfilled response_data) = (gql_errors response_data \<noteq> None)"

section \<open>The hard-path handlers\<close>

type_synonym response = "nat \<times> json"

definition failure :: "nat \<Rightarrow> string \<Rightarrow> response" where
  "failure code msg = (code, JObj [(''error'', JStr msg), (''success'', JBool False)])"

definition success :: "json \<Rightarrow> response" where
  "success d = (200, JObj [(''success'', JBool True), (''data'', d)])"

text \<open>
  \<^verbatim>\<open>app.get('/api/player/search', ...)\<close>: the two checks of the parameter, the
  lookup through the cache, the 404 for a falsy result, and the
  \<^verbatim>\<open>catch\<close> that answers 500 with \<^verbatim>\<open>error.message || 'Failed to search for player'\<close>.
\<close>

definition playerSearch ::
  "qparam \<Rightarrow> (gql_envelope, 'u) axios_call \<Rightarrow> int \<Rightarrow> int \<Rightarrow> cache \<times> 'u \<Rightarrow> response \<times> (cache \<times> 'u)"
where
  "playerSearch username axios_post now later s =
     (case username of
        QAbsent \<Rightarrow> (failure 400 ''Username parameter is required'', s)
      | QOther \<Rightarrow>
          (failure 400 ''Invalid username format. Username must be 3-20 characters and contain only alphanumeric characters, hyphens, and underscores.'', s)
      | QString name \<Rightarrow>
          if name = [] then (failure 400 ''Username parameter is required'', s)
          else if \<not> validateUsername (QString name) then
            (failure 400 ''Invalid username format. Username must be 3-20 characters and contain only alphanumeric characters, hyphens, and underscores.'', s)
          else
            (case getFromCache (cacheKey (PlayerSearch name))
                    (gql_fetch axios_post (JObj [(''username'', JStr name)])
                       ''playerByUsername'' ''Failed to fetch player data'')
                    CACHE_DURATION now later s of
               (Inl message, s') \<Rightarrow>
                 (failure 500 (or_str message ''Failed to search for player''), s')
             | (Inr playerData, s') \<Rightarrow>
                 if \<not> truthy playerData then (failure 404 ''Player not found'', s')
                 else (success playerData, s')))"

text \<open>\<^verbatim>\<open>app.get('/api/player/:playerId', ...)\<close>\<close>

definition playerProfile ::
  "string \<Rightarrow> (gql_envelope, 'u) axios_call \<Rightarrow> int \<Rightarrow> int \<Rightarrow> cache \<times> 'u \<Rightarrow> response \<times> (cache \<times> 'u)"
where
  "playerProfile playerId axios_post now later s =
     (case getFromCache (cacheKey (PlayerProfile playerId))
             (gql_fetch axios_post (JObj [(''id'', JStr playerId)])
                ''player'' ''Failed to fetch player profile'')
             CACHE_DURATION now later s of
        (Inl message, s') \<Rightarrow>
          (failure 500 (or_str message ''Failed to fetch player profile''), s')
      | (Inr profile, s') \<Rightarrow>
          if \<not> truthy profile then (failure 404 ''Player profile not found'', s')
          else (success profile, s'))"

text \<open>\<^verbatim>\<open>app.get('/api/market/item/:itemId', ...)\<close>\<close>

definition marketItem ::
  "string \<Rightarrow> (gql_envelope, 'u) axios_call \<Rightarrow> int \<Rightarrow> int \<Rightarrow> cache \<times> 'u \<Rightarrow> response \<times> (cache \<times> 'u)"
where
  "marketItem itemId axios_post now later s =
     (case getFromCache (cacheKey (MarketItem itemId))
             (gql_fetch axios_post (JObj [(''id'', JStr itemId)])
                ''item'' ''Failed to fetch item data'')
             CACHE_DURATION now later s of
        (Inl message, s') \<Rightarrow>
          (failure 500 (or_str message ''Failed to fetch item data''), s')
      | (Inr itemData, s') \<Rightarrow>
          if \<not> truthy itemData then (failure 404 ''Item not found'', s')
          else (success itemData, s'))"

section \<open>The ban check\<close>

text \<open>
  The body of the ban service's answer, as far as the handler reads it. A
  missing property reads as \<^verbatim>\<open>undefined\<close>, which \<^verbatim>\<open>=== true\<close> and \<^verbatim>\<open>||\<close> treat as
  they treat \<^verbatim>\<open>null\<close>, so both are \<open>JNull\<close> here. A body that is \<^verbatim>\<open>null\<close>
  (\<open>Fulfilled None\<close>) makes the first property read throw.
\<close>

datatype ban_data =
  BanData (d_banned: json) (d_reason: json) (d_bannedAt: json) (d_banType: json) (d_source: json)

definition offline :: "string \<Rightarrow> json" where
  "offline username =
     JObj [(''username'', JStr username),
           (''isBanned'', JBool False),
           (''banReason'', JNull),
           (''banDate'', JNull),
           (''banType'', JStr ''unknown''),
           (''source'', JStr ''offline''),
           (''note'', JStr ''Ban check service unavailable, player status unknown'')]"

text \<open>
  The producer of the ban check. Its \<^verbatim>\<open>try\<close> holds the call and the reading of
  the answer; its \<^verbatim>\<open>catch\<close> returns the fallback object, so it never rejects.
\<close>

definition banCheck_fetch :: "(ban_data option, 'u) axios_call \<Rightarrow> string \<Rightarrow> 'u producer" where
  "banCheck_fetch axios_get username u =
     (case axios_get (JObj [(''username'', JStr username)]) u of
        (Fulfilled (Some d), u') \<Rightarrow>
          (Inr (JObj [(''username'', JStr username),
                      (''isBanned'', JBool (d_banned d = JBool True)),
                      (''banReason'', or_json (d_reason d) JNull),
                      (''banDate'', or_json (d_bannedAt d) JNull),
                      (''banType'', or_json (d_banType d) (JStr ''unknown'')),
                      (''source'', or_json (d_source d) (JStr ''unknown''))]), u')
      | (Fulfilled None, u') \<Rightarrow> (Inr (offline username), u')
      | (Rejected message, u') \<Rightarrow> (Inr (offline username), u'))"

fun ban_failed :: "ban_data option axios_result \<Rightarrow> bool" where
  "ban_failed (Rejected message) = True"
| "ban_failed (Fulfilled None) = True"
| "ban_failed (Fulfilled (Some d)) = False"

text \<open>\<^verbatim>\<open>15 * 60 * 1000\<close>, the duration the ban check passes to getFromCache.\<close>

definition BAN_CHECK_DURATION :: int where
  "BAN_CHECK_DURATION = 15 * 60 * 1000"

definition banCheck ::
  "qparam \<Rightarrow> (ban_data option, 'u) axios_call \<Rightarrow> int \<Rightarrow> int \<Rightarrow> cache \<times> 'u \<Rightarrow> response \<times> (cache \<times> 'u)"
where
  "banCheck username axios_get now later s =
     (case username of
        QAbsent \<Rightarrow> (failure 400 ''Username parameter is required'', s)
      | QOther \<Rightarrow> (failure 400 ''Invalid username format'', s)
      | QString name \<Rightarrow>
          if name = [] then (failure 400 ''Username parameter is required'', s)
          else if \<not> validateUsername (QString name) then
            (failure 400 ''Invalid username format'', s)
          else
            (case getFromCache (cacheKey (BanCheck name)) (banCheck_fetch axios_get name)
                    BAN_CHECK_DURATION now later s of
               (Inl message, s') \<Rightarrow>
                 (failure 500 (or_str message ''Failed to check ban status''), s')
             | (Inr banStatus, s') \<Rightarrow> (success banStatus, s')))"

section \<open>The admin endpoints\<close>

text \<open>
  \<^verbatim>\<open>const expectedKey = process.env.ADMIN_KEY || 'admin-secret-key';\<close>
  The header \<^verbatim>\<open>x-admin-key\<close> is a string or absent.
  \<^verbatim>\<open>
  if (adminKey !== expectedKey) {
    return res.status(401).json({ error: 'Unauthorized', success: false });
  }
  const keyClearedCount = cache.size;
  cache.clear();
  res.json({ success: true, message: `Cache cleared. ${keyClearedCount} entries removed.` });
  \<close>
\<close>

definition expectedKey :: "string option \<Rightarrow> string" where
  "expectedKey ADMIN_KEY =
     (case ADMIN_KEY of None \<Rightarrow> ''admin-secret-key'' | Some k \<Rightarrow> or_str k ''admin-secret-key'')"

definition adminCacheClear :: "string option \<Rightarrow> string option \<Rightarrow> cache \<Rightarrow> response \<times> cache" where
  "adminCacheClear ADMIN_KEY adminKey c =
     (if adminKey \<noteq> Some (expectedKey ADMIN_KEY) then (failure 401 ''Unauthorized'', c)
      else
        let keyClearedCount = cache_size c in
          ((200, JObj [(''success'', JBool True),
                       (''message'', JStr (''Cache cleared. '' @ dec keyClearedCount @ '' entries removed.''))]),
           cache_clear c))"

text \<open>
  \<^verbatim>\<open>
  const existed = cache.has(key);
  if (existed) { clearCache(key); }
  res.json({ success: true, message: `Cache key '${key}' cleared.`, existed });
  \<close>
\<close>

definition clearCache :: "string \<Rightarrow> cache \<Rightarrow> cache" where
  "clearCache key c = cache_delete key c"

definition adminCacheClearKey ::
  "string option \<Rightarrow> string option \<Rightarrow> string \<Rightarrow> cache \<Rightarrow> response \<times> cache"
where
  "adminCacheClearKey ADMIN_KEY adminKey key c =
     (if adminKey \<noteq> Some (expectedKey ADMIN_KEY) then (failure 401 ''Unauthorized'', c)
      else
        let existed = cache_has c key in
          ((200, JObj [(''success'', JBool True),
                       (''message'', JStr (''Cache key '' @ [CHR 0x27] @ key @ [CHR 0x27] @ '' cleared.'')),
                       (''existed'', JBool existed)]),
           if existed then clearCache key c else c))"

section \<open>The rate limiter\<close>

text \<open>
  \<^verbatim>\<open>
  const limiter = rateLimit({
    windowMs: 15 * 60 * 1000, // 15 minutes
    max: 100, // limit each IP to 100 requests per windowMs
    ...
  });
  \<close>
  The source sets the window and the ceiling; the counting is done by the
  package \<^verbatim>\<open>express-rate-limit\<close>, whose code is not part of the sources.
\<close>

definition windowMs :: int where
  "windowMs = 15 * 60 * 1000"

definition max_requests :: nat where
  "max_requests = 100"

record rate_window =
  count :: nat
  windowStart :: int

type_synonym limiter_state = "string \<rightharpoonup> rate_window"

text \<open>
  Modelled from the spec: the admission algorithm of the rate limiter, which
  lives in the package \<^verbatim>\<open>express-rate-limit\<close> and is missing from the sources.
  The specification (4.4): "Maintains a RateWindow per clientId. If
  now - windowStart exceeds the configured window length, the window resets
  (count = 0, windowStart = now). Increment count; admit if count <= limit,
  else reject." A client seen for the first time gets a window that starts now.
\<close>

definition admit ::
  "int \<Rightarrow> nat \<Rightarrow> string \<Rightarrow> int \<Rightarrow> limiter_state \<Rightarrow> bool \<times> limiter_state"
where
  "admit window limit clientId now st =
     (let w = (case st clientId of
                 None \<Rightarrow> \<lparr>count = 0, windowStart = now\<rparr>
               | Some w \<Rightarrow>
                   if now - windowStart w > window then \<lparr>count = 0, windowStart = now\<rparr>
                   else w);
          w' = w\<lparr>count := count w + 1\<rparr>
      in (count w' \<le> limit, st(clientId \<mapsto> w')))"

text \<open>
  A request at time \<open>now\<close> opens a window: the client has none yet, or its
  window has elapsed.
\<close>

definition opens_window :: "int \<Rightarrow> limiter_state \<Rightarrow> string \<Rightarrow> int \<Rightarrow> bool" where
  "opens_window window st clientId now =
     (case st clientId of None \<Rightarrow> True | Some w \<Rightarrow> now - windowStart w > window)"

text \<open>A sequence of requests of one client, at the given times.\<close>

fun admit_all ::
  "int \<Rightarrow> nat \<Rightarrow> string \<Rightarrow> int list \<Rightarrow> limiter_state \<Rightarrow> bool list \<times> limiter_state"
where
  "admit_all window limit clientId [] st = ([], st)"
| "admit_all window limit clientId (t # ts) st =
     (case admit window limit clientId t st of
        (a, st') \<Rightarrow>
          (case admit_all window limit clientId ts st' of
             (as, st'') \<Rightarrow> (a # as, st'')))"

text \<open>The limiter as the source configures it.\<close>

definition limiter :: "string \<Rightarrow> int \<Rightarrow> limiter_state \<Rightarrow> bool \<times> limiter_state" where
  "limiter = admit windowMs max_requests"

section \<open>Producers and upstream calls used as examples\<close>

text \<open>
  The world is a count of the upstream calls made so far: each of these
  producers and calls adds one to it.
\<close>

definition counting :: "json \<Rightarrow> nat producer" where
  "counting v n = (Inr v, Suc n)"

definition failing :: "string \<Rightarrow> nat producer" where
  "failing msg n = (Inl msg, Suc n)"

definition rejecting :: "string \<Rightarrow> ('a, nat) axios_call" where
  "rejecting msg sent n = (Rejected msg, Suc n)"

definition answering :: "'a \<Rightarrow> ('a, nat) axios_call" where
  "answering body sent n = (Fulfilled body, Suc n)"

section \<open>Strings and numbers\<close>

text \<open>
  Two strings have the same lower-case form exactly when they differ only in
  letter case.
\<close>

lemma lower_char_code:
  "lower_char c = char_of (let n = of_char c :: nat in if 65 \<le> n \<and> n \<le> 90 then n + 32 else n)"
  by (simp add: lower_char_def Let_def)

lemma lower_char_eq_iff: "lower_char a = lower_char b \<longleftrightarrow> same_letter a b"
proof -
  have a: "(of_char a :: nat) < 256" and b: "(of_char b :: nat) < 256"
    by (rule nat_of_char_less_256)+
  have e: "a = b \<longleftrightarrow> (of_char a :: nat) = of_char b"
    by simp
  show ?thesis
    using a b unfolding e lower_char_code same_letter_def is_upper_def Let_def
    by (simp only: char_of_quasi_inj split: if_splits) (auto simp: mod_if)
qed

lemma toLowerCase_eq_iff: "toLowerCase u = toLowerCase v \<longleftrightarrow> eq_ignore_case u v"
proof -
  have "map lower_char u = map lower_char v \<longleftrightarrow> list_all2 (=) (map lower_char u) (map lower_char v)"
    by (simp add: list.rel_eq)
  also have "\<dots> \<longleftrightarrow> list_all2 (\<lambda>a b. lower_char a = lower_char b) u v"
    by (simp add: list_all2_map1 list_all2_map2)
  finally show ?thesis by (simp add: lower_char_eq_iff toLowerCase_def eq_ignore_case_def)
qed

text \<open>
  The decimal rendering is injective and made of digits, so a rendered number
  never starts with a minus sign unless the number is negative.
\<close>

lemma dec_small: "n < 10 \<Longrightarrow> dec n = [digit_char n]"
  by (subst dec.simps) simp

lemma dec_large: "\<not> n < 10 \<Longrightarrow> dec n = dec (n div 10) @ [digit_char (n mod 10)]"
  by (subst dec.simps) simp

lemma dec_nonempty: "dec n \<noteq> []"
  by (cases "n < 10") (simp_all add: dec_small dec_large)

lemma digit_char_inj: "a < 10 \<Longrightarrow> b < 10 \<Longrightarrow> digit_char a = digit_char b \<Longrightarrow> a = b"
  by (simp add: digit_char_def)

lemma dec_inj: "dec m = dec n \<Longrightarrow> m = n"
proof (induction m arbitrary: n rule: dec.induct)
  case (1 m)
  show ?case
  proof (cases "m < 10")
    case True
    with "1.prems" have n: "dec n = [digit_char m]"
      by (simp add: dec_small)
    have "n < 10"
    proof (rule ccontr)
      assume "\<not> n < 10"
      then have "dec n = dec (n div 10) @ [digit_char (n mod 10)]"
        by (rule dec_large)
      with n dec_nonempty [of "n div 10"] show False
        by simp
    qed
    then have "dec n = [digit_char n]"
      by (rule dec_small)
    with n have "digit_char m = digit_char n"
      by simp
    with True \<open>n < 10\<close> show ?thesis
      by (rule digit_char_inj)
  next
    case False
    have "\<not> n < 10"
    proof
      assume "n < 10"
      then have "dec n = [digit_char n]"
        by (rule dec_small)
      moreover from False have "dec m = dec (m div 10) @ [digit_char (m mod 10)]"
        by (rule dec_large)
      ultimately show False
        using "1.prems" dec_nonempty [of "m div 10"] by simp
    qed
    then have "dec n = dec (n div 10) @ [digit_char (n mod 10)]"
      by (rule dec_large)
    moreover from False have "dec m = dec (m div 10) @ [digit_char (m mod 10)]"
      by (rule dec_large)
    ultimately have "dec (m div 10) = dec (n div 10)"
      and d: "digit_char (m mod 10) = digit_char (n mod 10)"
      using "1.prems" by simp_all
    then have "m div 10 = n div 10"
      using "1.IH" False by blast
    moreover have "m mod 10 = n mod 10"
      using d by (auto intro: digit_char_inj)
    ultimately show ?thesis
      by (metis div_mult_mod_eq)
  qed
qed

lemma dec_digits: "c \<in> set (dec n) \<Longrightarrow> 48 \<le> (of_char c :: nat) \<and> (of_char c :: nat) \<le> 57"
proof (induction n rule: dec.induct)
  case (1 n)
  then show ?case
    by (cases "n < 10") (auto simp: dec_small dec_large digit_char_def)
qed

lemma dec_no_minus: "dec n \<noteq> CHR ''-'' # s"
proof
  assume "dec n = CHR ''-'' # s"
  then have "CHR ''-'' \<in> set (dec n)" by simp
  from dec_digits [OF this] show False by simp
qed

lemma num_to_string_inj: "num_to_string m = num_to_string n \<Longrightarrow> m = n"
proof -
  assume e: "num_to_string m = num_to_string n"
  consider "m < 0" "n < 0" | "m < 0" "\<not> n < 0" | "\<not> m < 0" "n < 0" | "\<not> m < 0" "\<not> n < 0"
    by blast
  then show ?thesis
  proof cases
    case 1
    with e have "nat (- m) = nat (- n)" by (auto simp: num_to_string_def dest: dec_inj)
    with 1 show ?thesis by simp
  next
    case 2
    with e dec_no_minus [of "nat n" "dec (nat (- m))"] show ?thesis
      by (simp add: num_to_string_def)
  next
    case 3
    with e dec_no_minus [of "nat m" "dec (nat (- n))"] show ?thesis
      by (simp add: num_to_string_def)
  next
    case 4
    with e have "nat m = nat n" by (auto simp: num_to_string_def dest: dec_inj)
    with 4 show ?thesis by simp
  qed
qed

section \<open>Properties of the cache keys\<close>

lemma shifted_iff: "shifted i ti j tj \<longleftrightarrow> (\<exists>w. i = j @ ''_'' @ w \<and> tj = w @ ''_'' @ ti)"
proof
  assume "shifted i ti j tj"
  then obtain zs where i: "i = (j @ ''_'') @ zs" and t: "tj = drop (Suc (length j)) i @ ''_'' @ ti"
    by (auto simp: shifted_def prefix_def)
  from i have "drop (Suc (length j)) i = zs"
    by simp
  with i t show "\<exists>w. i = j @ ''_'' @ w \<and> tj = w @ ''_'' @ ti"
    by auto
next
  assume "\<exists>w. i = j @ ''_'' @ w \<and> tj = w @ ''_'' @ ti"
  then obtain w where "i = j @ ''_'' @ w" and "tj = w @ ''_'' @ ti"
    by blast
  then show "shifted i ti j tj"
    by (simp add: shifted_def)
qed

lemma shifted_same_text: "shifted i ti j tj \<Longrightarrow> i @ ''_'' @ ti = j @ ''_'' @ tj"
  by (auto simp: shifted_iff)

lemma same_text_shifted:
  assumes "i @ ''_'' @ ti = j @ ''_'' @ tj"
  shows "shifted i ti j tj \<or> shifted j tj i ti \<or> (i = j \<and> ti = tj)"
proof -
  from assms obtain us where
    "(i = j @ us \<and> us @ ''_'' @ ti = ''_'' @ tj) \<or> (i @ us = j \<and> ''_'' @ ti = us @ ''_'' @ tj)"
    by (auto simp: append_eq_append_conv2)
  then show ?thesis
  proof
    assume a: "i = j @ us \<and> us @ ''_'' @ ti = ''_'' @ tj"
    show ?thesis
    proof (cases us)
      case Nil
      with a show ?thesis by simp
    next
      case (Cons x w)
      with a have "i = j @ ''_'' @ w" and "tj = w @ ''_'' @ ti"
        by simp_all
      then have "shifted i ti j tj"
        unfolding shifted_iff by blast
      then show ?thesis by simp
    qed
  next
    assume a: "i @ us = j \<and> ''_'' @ ti = us @ ''_'' @ tj"
    show ?thesis
    proof (cases us)
      case Nil
      with a show ?thesis by simp
    next
      case (Cons x w)
      with a have "j = i @ ''_'' @ w" and "ti = w @ ''_'' @ tj"
        by auto
      then have "shifted j tj i ti"
        unfolding shifted_iff by blast
      then show ?thesis by simp
    qed
  qed
qed

lemma history_key_iff:
  "cacheKey (MarketHistory i d) = cacheKey (MarketHistory j e) \<longleftrightarrow> history_overlap i d j e"
proof
  assume "cacheKey (MarketHistory i d) = cacheKey (MarketHistory j e)"
  then have "i @ ''_'' @ days_text d = j @ ''_'' @ days_text e"
    by simp
  from same_text_shifted [OF this] show "history_overlap i d j e"
    by (simp add: history_overlap_def)
next
  assume "history_overlap i d j e"
  then have "i @ ''_'' @ days_text d = j @ ''_'' @ days_text e"
    unfolding history_overlap_def
    using shifted_same_text [of i "days_text d" j "days_text e"]
      shifted_same_text [of j "days_text e" i "days_text d"]
    by auto
  then show "cacheKey (MarketHistory i d) = cacheKey (MarketHistory j e)"
    by simp
qed

lemma thirty: "num_to_string 30 = ''30''"
  by (simp add: num_to_string_def dec.simps digit_char_def char_of_eq_iff)

lemma same_days_text: "same_days d e \<Longrightarrow> days_text d = days_text e"
  by (auto simp: same_days_def days_text_def thirty)

lemma same_request_same_key: "same_request r1 r2 \<Longrightarrow> cacheKey r1 = cacheKey r2"
  by (induction r1 r2 rule: same_request.induct)
    (simp_all add: toLowerCase_eq_iff same_days_text)

lemma search_profile_key_iff:
  "cacheKey (PlayerSearch u) = cacheKey (PlayerProfile p) \<longleftrightarrow> toLowerCase u = ''profile_'' @ p"
  by simp

lemma equal_keys_same_or_overlap:
  assumes "cacheKey r1 = cacheKey r2"
  shows "same_request r1 r2 \<or> overlap r1 r2"
proof (cases r1)
  case (PlayerSearch u)
  with assms show ?thesis
    by (cases r2) (simp_all add: toLowerCase_eq_iff)
next
  case (PlayerProfile p)
  with assms show ?thesis
    by (cases r2) (auto dest: sym)
next
  case (BanCheck u)
  with assms show ?thesis
    by (cases r2) (simp_all add: toLowerCase_eq_iff)
next
  case BanStats
  with assms show ?thesis
    by (cases r2) simp_all
next
  case (MarketSearch q)
  with assms show ?thesis
    by (cases r2) simp_all
next
  case (MarketItem i)
  with assms show ?thesis
    by (cases r2) simp_all
next
  case (MarketTrending n)
  with assms show ?thesis
    by (cases r2) (auto dest: num_to_string_inj)
next
  case (MarketHistory i d)
  show ?thesis
  proof (cases r2)
    case (MarketHistory j e)
    with assms \<open>r1 = MarketHistory i d\<close> history_key_iff [of i d j e]
    show ?thesis
      by (simp del: cacheKey.simps)
  qed (use assms MarketHistory in simp_all)
qed

lemma search_ban_distinct: "cacheKey (PlayerSearch u) \<noteq> cacheKey (BanCheck v)"
  by simp

text \<open>
  C1, as stated, fails: distinct logical requests can get the same key. The
  price-history requests for item \<^verbatim>\<open>a_1\<close> over \<^verbatim>\<open>2\<close> days and for item \<^verbatim>\<open>a\<close> over
  \<^verbatim>\<open>1_2\<close> days are different requests, and both get the key
  \<^verbatim>\<open>market_history_a_1_2\<close>. So do, for one item, the request with
  \<^verbatim>\<open>?days=1&days=2\<close> and the request with \<^verbatim>\<open>?days=1,2\<close>. The search for the valid
  user name \<^verbatim>\<open>profile_abc\<close> and the profile of the player \<^verbatim>\<open>abc\<close> both get the key
  \<^verbatim>\<open>player_profile_abc\<close>.
\<close>

theorem cacheKey_collision:
  "MarketHistory ''a_1'' (Some (QStr ''2'')) \<noteq> MarketHistory ''a'' (Some (QStr ''1_2''))
   \<and> \<not> same_request (MarketHistory ''a_1'' (Some (QStr ''2''))) (MarketHistory ''a'' (Some (QStr ''1_2'')))
   \<and> cacheKey (MarketHistory ''a_1'' (Some (QStr ''2'')))
       = cacheKey (MarketHistory ''a'' (Some (QStr ''1_2'')))
   \<and> valid_request (MarketHistory ''x'' (Some (QArr [QStr ''1'', QStr ''2''])))
   \<and> \<not> same_request (MarketHistory ''x'' (Some (QArr [QStr ''1'', QStr ''2''])))
         (MarketHistory ''x'' (Some (QStr ''1,2'')))
   \<and> cacheKey (MarketHistory ''x'' (Some (QArr [QStr ''1'', QStr ''2''])))
       = cacheKey (MarketHistory ''x'' (Some (QStr ''1,2'')))
   \<and> valid_request (PlayerSearch ''profile_abc'')
   \<and> \<not> same_request (PlayerSearch ''profile_abc'') (PlayerProfile ''abc'')
   \<and> cacheKey (PlayerSearch ''profile_abc'') = cacheKey (PlayerProfile ''abc'')"
  by (simp add: days_text_def same_days_def username_char_def toLowerCase_def lower_char_def)

text \<open>
  C1, amended. The same logical request always gets the same key: user names
  that differ only in letter case give equal keys, and so do an absent \<open>days\<close>
  and \<open>days = 30\<close>. Two different logical requests that reach the cache get
  different keys, unless they overlap: two price-history requests of which
  one is shifted against the other or which name one item with days of the
  same text, or a player search and a player profile where the user name in
  lower case is \<^verbatim>\<open>profile_\<close> followed by the player id. Two price-history
  requests that overlap do get the same key, as the key is the item, an
  underscore and the text of the days. Of a player search and a player
  profile that overlap nothing is said here. A player search and a ban check
  never share a key, whatever the user names.
\<close>

theorem cacheKey_injective:
  "(same_request r1 r2 \<longrightarrow> cacheKey r1 = cacheKey r2)
   \<and> (valid_request r1 \<and> valid_request r2 \<and> \<not> same_request r1 r2 \<and> \<not> overlap r1 r2
        \<longrightarrow> cacheKey r1 \<noteq> cacheKey r2)
   \<and> (history_overlap i d j e
        \<longrightarrow> cacheKey (MarketHistory i d) = cacheKey (MarketHistory j e))
   \<and> cacheKey (PlayerSearch u) \<noteq> cacheKey (BanCheck v)"
  using same_request_same_key [of r1 r2] equal_keys_same_or_overlap [of r1 r2]
    history_key_iff [of i d j e] search_ban_distinct [of u v]
  by blast

theorem cacheKey_injective_witness:
  "same_request (BanCheck ''Nikita_01'') (BanCheck ''NIKITA_01'')
   \<and> cacheKey (BanCheck ''Nikita_01'') = cacheKey (BanCheck ''NIKITA_01'')
   \<and> same_request (MarketHistory ''5447a9cd4bdc2dbd208b4567'' None)
        (MarketHistory ''5447a9cd4bdc2dbd208b4567'' (Some (QStr ''30'')))
   \<and> cacheKey (MarketHistory ''5447a9cd4bdc2dbd208b4567'' None)
        = cacheKey (MarketHistory ''5447a9cd4bdc2dbd208b4567'' (Some (QStr ''30'')))
   \<and> valid_request (PlayerSearch ''profile_abc'')
   \<and> valid_request (PlayerProfile ''xyz'')
   \<and> \<not> same_request (PlayerSearch ''profile_abc'') (PlayerProfile ''xyz'')
   \<and> \<not> overlap (PlayerSearch ''profile_abc'') (PlayerProfile ''xyz'')
   \<and> cacheKey (PlayerSearch ''profile_abc'') \<noteq> cacheKey (PlayerProfile ''xyz'')
   \<and> valid_request (MarketHistory ''a_1'' (Some (QStr ''2'')))
   \<and> valid_request (MarketHistory ''b'' (Some (QArr [QStr ''1_2''])))
   \<and> \<not> same_request (MarketHistory ''a_1'' (Some (QStr ''2'')))
         (MarketHistory ''b'' (Some (QArr [QStr ''1_2''])))
   \<and> \<not> overlap (MarketHistory ''a_1'' (Some (QStr ''2'')))
         (MarketHistory ''b'' (Some (QArr [QStr ''1_2''])))
   \<and> cacheKey (MarketHistory ''a_1'' (Some (QStr ''2'')))
        \<noteq> cacheKey (MarketHistory ''b'' (Some (QArr [QStr ''1_2''])))
   \<and> history_overlap ''a_1'' (Some (QStr ''2'')) ''a'' (Some (QStr ''1_2''))
   \<and> cacheKey (MarketHistory ''a_1'' (Some (QStr ''2'')))
        = cacheKey (MarketHistory ''a'' (Some (QStr ''1_2'')))"
proof -
  let ?h = "MarketHistory ''5447a9cd4bdc2dbd208b4567''"
  have a: "same_request (BanCheck ''Nikita_01'') (BanCheck ''NIKITA_01'')"
    by (simp add: eq_ignore_case_def same_letter_def is_upper_def)
  from a cacheKey_injective [of "BanCheck ''Nikita_01''" "BanCheck ''NIKITA_01''"]
  have b: "cacheKey (BanCheck ''Nikita_01'') = cacheKey (BanCheck ''NIKITA_01'')"
    by blast
  have c: "same_request (?h None) (?h (Some (QStr ''30'')))"
    by (simp add: same_days_def)
  from c cacheKey_injective [of "?h None" "?h (Some (QStr ''30''))"]
  have d: "cacheKey (?h None) = cacheKey (?h (Some (QStr ''30'')))"
    by blast
  have e1: "valid_request (PlayerSearch ''profile_abc'')"
    and e2: "valid_request (PlayerProfile ''xyz'')"
    and e3: "\<not> same_request (PlayerSearch ''profile_abc'') (PlayerProfile ''xyz'')"
    and e4: "\<not> overlap (PlayerSearch ''profile_abc'') (PlayerProfile ''xyz'')"
    by (simp_all add: username_char_def toLowerCase_def lower_char_def)
  from e1 e2 e3 e4 cacheKey_injective [of "PlayerSearch ''profile_abc''" "PlayerProfile ''xyz''"]
  have e: "cacheKey (PlayerSearch ''profile_abc'') \<noteq> cacheKey (PlayerProfile ''xyz'')"
    by blast
  let ?p = "MarketHistory ''a_1'' (Some (QStr ''2''))"
  let ?q = "MarketHistory ''b'' (Some (QArr [QStr ''1_2'']))"
  have f1: "valid_request ?p" and f2: "valid_request ?q" and f3: "\<not> same_request ?p ?q"
    and f4: "\<not> overlap ?p ?q"
    by (simp_all add: history_overlap_def shifted_def days_text_def)
  from f1 f2 f3 f4 cacheKey_injective [of ?p ?q]
  have f: "cacheKey ?p \<noteq> cacheKey ?q"
    by blast
  have g1: "history_overlap ''a_1'' (Some (QStr ''2'')) ''a'' (Some (QStr ''1_2''))"
    by (simp add: history_overlap_def shifted_def days_text_def)
  from g1 cacheKey_injective [of _ _ "''a_1''" "Some (QStr ''2'')" "''a''" "Some (QStr ''1_2'')"]
  have g: "cacheKey ?p = cacheKey (MarketHistory ''a'' (Some (QStr ''1_2'')))"
    by blast
  from a b c d e1 e2 e3 e4 e f1 f2 f3 f4 f g1 g show ?thesis
    by (intro conjI)
qed

section \<open>Properties of the cache\<close>

lemma cache_get_set: "cache_get (cache_set key e c) k = (if k = key then Some e else cache_get c k)"
  by (induction c) (auto simp: cache_get_def)

lemma cache_get_delete: "cache_get (cache_delete key c) k = (if k = key then None else cache_get c k)"
  by (induction c) (auto simp: cache_get_def cache_delete_def)

lemma cache_set_keys: "fst ` set (cache_set key e c) = insert key (fst ` set c)"
  by (induction c) auto

lemma cache_ok_set: "cache_ok c \<Longrightarrow> cache_ok (cache_set key e c)"
  by (induction c) (auto simp: cache_ok_def cache_set_keys)

lemma cache_ok_delete: "cache_ok c \<Longrightarrow> cache_ok (cache_delete key c)"
  by (simp add: cache_ok_def cache_delete_def distinct_map_filter)

lemma cache_keys: "{key. cache_has c key} = fst ` set c"
  by (auto simp: cache_has_def cache_get_def map_of_eq_None_iff)

lemma cache_size_card: "cache_ok c \<Longrightarrow> cache_size c = card {key. cache_has c key}"
proof -
  assume "cache_ok c"
  then have "card (fst ` set c) = length c"
    by (metis cache_ok_def distinct_card length_map set_map)
  then show ?thesis
    by (simp add: cache_size_def cache_keys)
qed

lemma getFromCache_hit:
  "cache_get c key = Some cached \<Longrightarrow> now - timestamp cached < duration \<Longrightarrow>
   getFromCache key fn duration now later (c, u) = (Inr (data cached), (c, u))"
  by (simp add: getFromCache_def)

lemma getFromCache_miss:
  "\<not> fresh c key duration now \<Longrightarrow>
   getFromCache key fn duration now later (c, u) = store_result key fn later (c, u)"
  by (auto simp: getFromCache_def fresh_def split: option.splits)

lemma store_result_reject:
  "fn u = (Inl err, u') \<Longrightarrow> store_result key fn later (c, u) = (Inl err, (c, u'))"
  by (simp add: store_result_def)

lemma store_result_resolve:
  "fn u = (Inr d, u') \<Longrightarrow>
   store_result key fn later (c, u) = (Inr d, (cache_set key \<lparr>data = d, timestamp = later\<rparr> c, u'))"
  by (simp add: store_result_def)

lemma cache_ok_getFromCache:
  "cache_ok (fst s) \<Longrightarrow> cache_ok (fst (snd (getFromCache key fn duration now later s)))"
  by (auto simp: getFromCache_def store_result_def cache_ok_set split: option.splits prod.splits sum.splits)

text \<open>
  C2. After a call of getFromCache whose producer returned \<open>v\<close> has stored \<open>v\<close>
  under \<open>key\<close> at time \<open>now1\<close>, a call for \<open>key\<close> with duration \<open>t\<close> at a time
  \<open>now2\<close> with \<open>now2 - now1 < t\<close> (the same instant when \<open>t\<close> is positive, or a
  later one within \<open>t\<close>) returns \<open>v\<close> and leaves the cache and the world outside
  as they were, whatever its producer \<open>fn'\<close> is: the producer is not invoked.
\<close>

theorem getFromCache_put_then_get:
  assumes "\<not> fresh c key t0 now0"
    and "fn u = (Inr v, u1)"
    and "now2 - now1 < t"
  shows "getFromCache key fn t0 now0 now1 (c, u)
           = (Inr v, (cache_set key \<lparr>data = v, timestamp = now1\<rparr> c, u1))
       \<and> getFromCache key fn' t now2 now3 (cache_set key \<lparr>data = v, timestamp = now1\<rparr> c, u1)
           = (Inr v, (cache_set key \<lparr>data = v, timestamp = now1\<rparr> c, u1))"
proof
  show "getFromCache key fn t0 now0 now1 (c, u)
          = (Inr v, (cache_set key \<lparr>data = v, timestamp = now1\<rparr> c, u1))"
    using assms(1,2) by (simp add: getFromCache_miss store_result_resolve)
next
  have "cache_get (cache_set key \<lparr>data = v, timestamp = now1\<rparr> c) key
          = Some \<lparr>data = v, timestamp = now1\<rparr>"
    by (simp add: cache_get_set)
  from getFromCache_hit [OF this] assms(3)
  show "getFromCache key fn' t now2 now3 (cache_set key \<lparr>data = v, timestamp = now1\<rparr> c, u1)
          = (Inr v, (cache_set key \<lparr>data = v, timestamp = now1\<rparr> c, u1))"
    by simp
qed

theorem getFromCache_put_then_get_witness:
  "\<not> fresh [] ''k'' 10 100
   \<and> counting (JNum 7) 0 = (Inr (JNum 7), 1)
   \<and> (105::int) - 105 < 1
   \<and> getFromCache ''k'' (counting (JNum 7)) 10 100 105 ([], 0)
        = (Inr (JNum 7), ([(''k'', \<lparr>data = JNum 7, timestamp = 105\<rparr>)], 1))
   \<and> getFromCache ''k'' (counting (JNum 8)) 1 105 109 ([(''k'', \<lparr>data = JNum 7, timestamp = 105\<rparr>)], 1)
        = (Inr (JNum 7), ([(''k'', \<lparr>data = JNum 7, timestamp = 105\<rparr>)], 1))"
proof -
  have a: "\<not> fresh [] ''k'' 10 100"
    by (simp add: fresh_def cache_get_def)
  have b: "counting (JNum 7) 0 = (Inr (JNum 7), 1)"
    by (simp add: counting_def)
  have c: "(105::int) - 105 < 1"
    by simp
  show ?thesis
    using a b c
      getFromCache_put_then_get
        [of "[]" "''k''" 10 100 "counting (JNum 7)" 0 "JNum 7" 1 105 105 1 "counting (JNum 8)" 109]
    by simp
qed

text \<open>
  C3. When the entry stored under \<open>key\<close> is stale (\<open>now - timestamp \<ge> t\<close>), the
  producer is invoked; its value overwrites the entry, its rejection leaves the
  cache untouched with the stale entry in it. The value returned and the world
  outside are those of the same call on the cache without the key, and the
  key is still in the cache afterwards: nothing is deleted by expiry.
\<close>

theorem getFromCache_stale:
  assumes "cache_get c key = Some e"
    and "t \<le> now - timestamp e"
  shows "getFromCache key fn t now later (c, u)
           = (case fn u of
                (Inl err, u') \<Rightarrow> (Inl err, (c, u'))
              | (Inr d, u') \<Rightarrow> (Inr d, (cache_set key \<lparr>data = d, timestamp = later\<rparr> c, u')))
       \<and> fst (getFromCache key fn t now later (c, u))
           = fst (getFromCache key fn t now later (cache_delete key c, u))
       \<and> snd (snd (getFromCache key fn t now later (c, u)))
           = snd (snd (getFromCache key fn t now later (cache_delete key c, u)))
       \<and> cache_has (fst (snd (getFromCache key fn t now later (c, u)))) key"
proof -
  from assms have stale: "\<not> fresh c key t now"
    by (simp add: fresh_def)
  have absent: "\<not> fresh (cache_delete key c) key t now"
    by (simp add: fresh_def cache_get_delete)
  show ?thesis
    using assms(1)
    by (simp add: getFromCache_miss [OF stale] getFromCache_miss [OF absent]
          store_result_def cache_has_def cache_get_set split: prod.splits sum.splits)
qed

theorem getFromCache_stale_witness:
  "cache_get [(''k'', \<lparr>data = JNum 1, timestamp = 0\<rparr>)] ''k'' = Some \<lparr>data = JNum 1, timestamp = 0\<rparr>
   \<and> (10::int) \<le> 10 - timestamp \<lparr>data = JNum 1, timestamp = 0\<rparr>
   \<and> getFromCache ''k'' (counting (JNum 2)) 10 10 11 ([(''k'', \<lparr>data = JNum 1, timestamp = 0\<rparr>)], 0)
        = (Inr (JNum 2), ([(''k'', \<lparr>data = JNum 2, timestamp = 11\<rparr>)], 1))
   \<and> getFromCache ''k'' (failing ''down'') 10 10 11 ([(''k'', \<lparr>data = JNum 1, timestamp = 0\<rparr>)], 0)
        = (Inl ''down'', ([(''k'', \<lparr>data = JNum 1, timestamp = 0\<rparr>)], 1))"
proof -
  have a: "cache_get [(''k'', \<lparr>data = JNum 1, timestamp = 0\<rparr>)] ''k'' = Some \<lparr>data = JNum 1, timestamp = 0\<rparr>"
    by (simp add: cache_get_def)
  have b: "(10::int) \<le> 10 - timestamp \<lparr>data = JNum 1, timestamp = 0\<rparr>"
    by simp
  show ?thesis
    using a b
      getFromCache_stale [OF a b, of "counting (JNum 2)" 11 0]
      getFromCache_stale [OF a b, of "failing ''down''" 11 0]
    by (simp add: counting_def failing_def)
qed

text \<open>
  C9. When the cache has no fresh entry for the key and the producer rejects,
  getFromCache rejects with the producer's error and the cache is exactly the
  one before the call: a failed result is never stored.
\<close>

theorem getFromCache_reject_keeps_cache:
  assumes "\<not> fresh c key duration now"
    and "fn u = (Inl err, u')"
  shows "getFromCache key fn duration now later (c, u) = (Inl err, (c, u'))"
  using assms by (simp add: getFromCache_miss store_result_reject)

theorem getFromCache_reject_keeps_cache_witness:
  "\<not> fresh [(''k'', \<lparr>data = JNum 1, timestamp = 0\<rparr>)] ''k'' 10 10
   \<and> failing ''timeout'' 0 = (Inl ''timeout'', 1)
   \<and> getFromCache ''k'' (failing ''timeout'') 10 10 12 ([(''k'', \<lparr>data = JNum 1, timestamp = 0\<rparr>)], 0)
       = (Inl ''timeout'', ([(''k'', \<lparr>data = JNum 1, timestamp = 0\<rparr>)], 1))"
proof -
  have a: "\<not> fresh [(''k'', \<lparr>data = JNum 1, timestamp = 0\<rparr>)] ''k'' 10 10"
    by (simp add: fresh_def cache_get_def)
  have b: "failing ''timeout'' 0 = (Inl ''timeout'', 1)"
    by (simp add: failing_def)
  show ?thesis
    using a b
      getFromCache_reject_keeps_cache
        [of "[(''k'', \<lparr>data = JNum 1, timestamp = 0\<rparr>)]" "''k''" 10 10
            "failing ''timeout''" 0 "''timeout''" 1 12]
    by simp
qed

section \<open>Properties of the admin endpoints\<close>

lemma cache_ok_adminCacheClearKey:
  "cache_ok c \<Longrightarrow> cache_ok (snd (adminCacheClearKey ADMIN_KEY adminKey key c))"
  by (simp add: adminCacheClearKey_def clearCache_def cache_ok_delete Let_def)

text \<open>
  C4. With the expected key, clearing the cache reports the number of keys
  that were in it and leaves it empty.
\<close>

theorem adminCacheClear_count:
  assumes "cache_ok c"
  shows "adminCacheClear ADMIN_KEY (Some (expectedKey ADMIN_KEY)) c
           = ((200, JObj [(''success'', JBool True),
                 (''message'', JStr (''Cache cleared. '' @ dec (card {key. cache_has c key})
                                      @ '' entries removed.''))]),
              [])
       \<and> {key. cache_has (snd (adminCacheClear ADMIN_KEY (Some (expectedKey ADMIN_KEY)) c)) key} = {}"
  using cache_size_card [OF assms]
  by (simp add: adminCacheClear_def cache_clear_def cache_has_def cache_get_def)

theorem adminCacheClear_count_witness:
  "cache_ok [(''player_nikita'', \<lparr>data = JNull, timestamp = 5\<rparr>),
             (''ban_stats_global'', \<lparr>data = JNum 3, timestamp = 9\<rparr>)]
   \<and> adminCacheClear None (Some ''admin-secret-key'')
        [(''player_nikita'', \<lparr>data = JNull, timestamp = 5\<rparr>),
         (''ban_stats_global'', \<lparr>data = JNum 3, timestamp = 9\<rparr>)]
      = ((200, JObj [(''success'', JBool True),
                     (''message'', JStr ''Cache cleared. 2 entries removed.'')]), [])"
proof -
  let ?c = "[(''player_nikita'', \<lparr>data = JNull, timestamp = 5\<rparr>),
             (''ban_stats_global'', \<lparr>data = JNum 3, timestamp = 9\<rparr>)]"
  have a: "cache_ok ?c"
    by (simp add: cache_ok_def)
  have n: "card {key. cache_has ?c key} = 2"
    by (simp add: cache_keys)
  have d: "dec 2 = ''2''"
    by (simp add: dec.simps digit_char_def char_of_eq_iff)
  from adminCacheClear_count [OF a, of None, THEN conjunct1]
  have "adminCacheClear None (Some ''admin-secret-key'') ?c
          = ((200, JObj [(''success'', JBool True),
                (''message'', JStr (''Cache cleared. '' @ ''2'' @ '' entries removed.''))]), [])"
    by (simp only: n d expectedKey_def option.case)
  with a show ?thesis
    by simp
qed

text \<open>
  C5. With any other key, or none, both admin endpoints answer 401
  \<^verbatim>\<open>Unauthorized\<close> and leave the cache as it is; the answer of the single-key
  endpoint is the same for every cache and every key, so it does not tell
  whether the key was there. With the expected key, clearing empties the cache.
\<close>

theorem admin_unauthorized:
  assumes "adminKey \<noteq> Some (expectedKey ADMIN_KEY)"
  shows "adminCacheClear ADMIN_KEY adminKey c = (failure 401 ''Unauthorized'', c)
       \<and> adminCacheClearKey ADMIN_KEY adminKey key c = (failure 401 ''Unauthorized'', c)
       \<and> fst (adminCacheClearKey ADMIN_KEY adminKey key c)
           = fst (adminCacheClearKey ADMIN_KEY adminKey key' c')
       \<and> snd (adminCacheClear ADMIN_KEY (Some (expectedKey ADMIN_KEY)) c) = []"
  using assms by (simp add: adminCacheClear_def adminCacheClearKey_def cache_clear_def)

theorem admin_unauthorized_witness:
  "Some ''guess'' \<noteq> Some (expectedKey (Some ''s3cret''))
   \<and> adminCacheClear (Some ''s3cret'') (Some ''guess'') [(''k'', \<lparr>data = JNull, timestamp = 5\<rparr>)]
        = ((401, JObj [(''error'', JStr ''Unauthorized''), (''success'', JBool False)]),
           [(''k'', \<lparr>data = JNull, timestamp = 5\<rparr>)])
   \<and> adminCacheClearKey (Some ''s3cret'') (Some ''guess'') ''k'' [(''k'', \<lparr>data = JNull, timestamp = 5\<rparr>)]
        = ((401, JObj [(''error'', JStr ''Unauthorized''), (''success'', JBool False)]),
           [(''k'', \<lparr>data = JNull, timestamp = 5\<rparr>)])
   \<and> adminCacheClearKey (Some ''s3cret'') None ''absent'' [(''k'', \<lparr>data = JNull, timestamp = 5\<rparr>)]
        = ((401, JObj [(''error'', JStr ''Unauthorized''), (''success'', JBool False)]),
           [(''k'', \<lparr>data = JNull, timestamp = 5\<rparr>)])"
proof -
  have a: "Some ''guess'' \<noteq> Some (expectedKey (Some ''s3cret''))"
    by (simp add: expectedKey_def or_str_def)
  have b: "None \<noteq> Some (expectedKey (Some ''s3cret''))"
    by simp
  show ?thesis
    using a
      admin_unauthorized [OF a, of "[(''k'', \<lparr>data = JNull, timestamp = 5\<rparr>)]" "''k''"]
      admin_unauthorized [OF b, of "[(''k'', \<lparr>data = JNull, timestamp = 5\<rparr>)]" "''absent''"]
    by (simp add: failure_def)
qed

section \<open>Upstream failure on the hard path\<close>

lemma valid_nonempty: "validateUsername (QString name) \<Longrightarrow> name \<noteq> []"
  by (auto split: if_splits)

lemma gql_fetch_failed:
  assumes "axios_post variables u = (r, u')" and "gql_failed r"
  shows "\<exists>msg. gql_fetch axios_post variables field failed u = (Inl msg, u')"
proof (cases r)
  case (Rejected message)
  with assms(1) show ?thesis
    by (simp add: gql_fetch_def)
next
  case (Fulfilled response_data)
  with assms(2) obtain errs where "gql_errors response_data = Some errs"
    by auto
  with Fulfilled assms(1) show ?thesis
    by (cases errs) (simp_all add: gql_fetch_def)
qed

lemma or_str_nonempty: "d \<noteq> [] \<Longrightarrow> or_str m d \<noteq> []"
  by (simp add: or_str_def)

lemma getFromCache_gql_failed:
  assumes "\<not> fresh c key duration now"
    and "axios_post variables u = (r, u')"
    and "gql_failed r"
  shows "\<exists>msg. getFromCache key (gql_fetch axios_post variables field failed) duration now later (c, u)
           = (Inl msg, (c, u'))"
proof -
  from gql_fetch_failed [of axios_post variables u r u' field failed, OF assms(2,3)]
  obtain msg where "gql_fetch axios_post variables field failed u = (Inl msg, u')" ..
  with assms(1) show ?thesis
    by (simp add: getFromCache_miss store_result_reject)
qed

lemma playerSearch_failure:
  assumes "validateUsername (QString name)"
    and "\<not> fresh c (cacheKey (PlayerSearch name)) CACHE_DURATION now"
    and "axios_post (JObj [(''username'', JStr name)]) u = (r, u')"
    and "gql_failed r"
  shows "\<exists>msg. msg \<noteq> [] \<and>
           playerSearch (QString name) axios_post now later (c, u) = (failure 500 msg, (c, u'))"
proof -
  from getFromCache_gql_failed
         [of c "cacheKey (PlayerSearch name)" CACHE_DURATION now axios_post
             "JObj [(''username'', JStr name)]" u r u', OF assms(2-4)]
  obtain msg where
    "getFromCache (cacheKey (PlayerSearch name))
       (gql_fetch axios_post (JObj [(''username'', JStr name)])
          ''playerByUsername'' ''Failed to fetch player data'')
       CACHE_DURATION now later (c, u) = (Inl msg, (c, u'))"
    by blast
  with assms(1) valid_nonempty [OF assms(1)]
  have "playerSearch (QString name) axios_post now later (c, u)
          = (failure 500 (or_str msg ''Failed to search for player''), (c, u'))"
    by (simp add: playerSearch_def del: validateUsername.simps cacheKey.simps)
  moreover have "or_str msg ''Failed to search for player'' \<noteq> []"
    by (rule or_str_nonempty) simp
  ultimately show ?thesis
    by blast
qed

lemma playerProfile_failure:
  assumes "\<not> fresh c (cacheKey (PlayerProfile playerId)) CACHE_DURATION now"
    and "axios_post (JObj [(''id'', JStr playerId)]) u = (r, u')"
    and "gql_failed r"
  shows "\<exists>msg. msg \<noteq> [] \<and>
           playerProfile playerId axios_post now later (c, u) = (failure 500 msg, (c, u'))"
proof -
  from getFromCache_gql_failed
         [of c "cacheKey (PlayerProfile playerId)" CACHE_DURATION now axios_post
             "JObj [(''id'', JStr playerId)]" u r u', OF assms]
  obtain msg where
    "getFromCache (cacheKey (PlayerProfile playerId))
       (gql_fetch axios_post (JObj [(''id'', JStr playerId)])
          ''player'' ''Failed to fetch player profile'')
       CACHE_DURATION now later (c, u) = (Inl msg, (c, u'))"
    by blast
  then have "playerProfile playerId axios_post now later (c, u)
          = (failure 500 (or_str msg ''Failed to fetch player profile''), (c, u'))"
    by (simp add: playerProfile_def del: cacheKey.simps)
  moreover have "or_str msg ''Failed to fetch player profile'' \<noteq> []"
    by (rule or_str_nonempty) simp
  ultimately show ?thesis
    by blast
qed

lemma marketItem_failure:
  assumes "\<not> fresh c (cacheKey (MarketItem itemId)) CACHE_DURATION now"
    and "axios_post (JObj [(''id'', JStr itemId)]) u = (r, u')"
    and "gql_failed r"
  shows "\<exists>msg. msg \<noteq> [] \<and>
           marketItem itemId axios_post now later (c, u) = (failure 500 msg, (c, u'))"
proof -
  from getFromCache_gql_failed
         [of c "cacheKey (MarketItem itemId)" CACHE_DURATION now axios_post
             "JObj [(''id'', JStr itemId)]" u r u', OF assms]
  obtain msg where
    "getFromCache (cacheKey (MarketItem itemId))
       (gql_fetch axios_post (JObj [(''id'', JStr itemId)])
          ''item'' ''Failed to fetch item data'')
       CACHE_DURATION now later (c, u) = (Inl msg, (c, u'))"
    by blast
  then have "marketItem itemId axios_post now later (c, u)
          = (failure 500 (or_str msg ''Failed to fetch item data''), (c, u'))"
    by (simp add: marketItem_def del: cacheKey.simps)
  moreover have "or_str msg ''Failed to fetch item data'' \<noteq> []"
    by (rule or_str_nonempty) simp
  ultimately show ?thesis
    by blast
qed

lemma playerSearch_error_envelope_example:
  "playerSearch (QString ''Nikita_01'')
     (answering (GqlEnvelope (Some [Some ''Rate limit exceeded'']) None)) 0 7 ([], 0)
   = ((500, JObj [(''error'', JStr ''Rate limit exceeded''), (''success'', JBool False)]), ([], 1))"
  by (simp add: playerSearch_def username_char_def getFromCache_def cache_get_def store_result_def
        gql_fetch_def answering_def or_str_def failure_def)

text \<open>
  Two requests for the same item: when the first one misses and the service
  answers, the second one, less than five minutes after the store, gets the
  same answer from the cache, whatever the service would do. A \<^verbatim>\<open>null\<close> item is
  stored like any other, and its 404 is served from the cache too.
\<close>

lemma marketItem_served_from_cache:
  assumes "\<not> fresh c (cacheKey (MarketItem itemId)) CACHE_DURATION now"
    and "axios_post (JObj [(''id'', JStr itemId)]) u = (Fulfilled (GqlEnvelope None (Some item)), u1)"
    and "now2 - later < 5 * 60 * 1000"
  shows "marketItem itemId axios_post now later (c, u)
           = (if truthy item then success item else failure 404 ''Item not found'',
              (cache_set (cacheKey (MarketItem itemId)) \<lparr>data = item, timestamp = later\<rparr> c, u1))
       \<and> marketItem itemId axios_post2 now2 later2
            (cache_set (cacheKey (MarketItem itemId)) \<lparr>data = item, timestamp = later\<rparr> c, u1)
           = (if truthy item then success item else failure 404 ''Item not found'',
              (cache_set (cacheKey (MarketItem itemId)) \<lparr>data = item, timestamp = later\<rparr> c, u1))"
proof -
  let ?key = "cacheKey (MarketItem itemId)"
  let ?c1 = "cache_set ?key \<lparr>data = item, timestamp = later\<rparr> c"
  have f: "gql_fetch axios_post (JObj [(''id'', JStr itemId)]) ''item'' ''Failed to fetch item data'' u
             = (Inr item, u1)"
    using assms(2) by (simp add: gql_fetch_def)
  have 1: "getFromCache ?key
             (gql_fetch axios_post (JObj [(''id'', JStr itemId)]) ''item'' ''Failed to fetch item data'')
             CACHE_DURATION now later (c, u) = (Inr item, (?c1, u1))"
    using assms(1) f by (simp add: getFromCache_miss store_result_resolve del: cacheKey.simps)
  have "cache_get ?c1 ?key = Some \<lparr>data = item, timestamp = later\<rparr>"
    by (simp add: cache_get_set)
  from getFromCache_hit [OF this, of now2 CACHE_DURATION] assms(3)
  have 2: "getFromCache ?key
             (gql_fetch axios_post2 (JObj [(''id'', JStr itemId)]) ''item'' ''Failed to fetch item data'')
             CACHE_DURATION now2 later2 (?c1, u1) = (Inr item, (?c1, u1))"
    by (simp add: CACHE_DURATION_def)
  show ?thesis
    by (simp add: marketItem_def 1 2 del: cacheKey.simps)
qed

text \<open>
  C6. In the player search, the player profile and the item lookup, when the
  cache has no fresh entry and the upstream call is rejected or answers with
  an error envelope, the handler answers 500 with \<^verbatim>\<open>success: false\<close> and a
  non-empty error message, and stores nothing: the cache is unchanged.
\<close>

theorem hard_path_failure_reported:
  "(validateUsername (QString name)
      \<and> \<not> fresh c (cacheKey (PlayerSearch name)) CACHE_DURATION now
      \<and> axios_post (JObj [(''username'', JStr name)]) u = (r, u') \<and> gql_failed r
    \<longrightarrow> (\<exists>msg. msg \<noteq> [] \<and>
           playerSearch (QString name) axios_post now later (c, u) = (failure 500 msg, (c, u'))))
   \<and> (\<not> fresh c (cacheKey (PlayerProfile ident)) CACHE_DURATION now
      \<and> axios_post (JObj [(''id'', JStr ident)]) u = (r, u') \<and> gql_failed r
    \<longrightarrow> (\<exists>msg. msg \<noteq> [] \<and>
           playerProfile ident axios_post now later (c, u) = (failure 500 msg, (c, u'))))
   \<and> (\<not> fresh c (cacheKey (MarketItem ident)) CACHE_DURATION now
      \<and> axios_post (JObj [(''id'', JStr ident)]) u = (r, u') \<and> gql_failed r
    \<longrightarrow> (\<exists>msg. msg \<noteq> [] \<and>
           marketItem ident axios_post now later (c, u) = (failure 500 msg, (c, u'))))"
  using playerSearch_failure [of name c now axios_post u r u' later]
    playerProfile_failure [of c ident now axios_post u r u' later]
    marketItem_failure [of c ident now axios_post u r u' later]
  by blast

theorem hard_path_failure_reported_witness:
  "validateUsername (QString ''Nikita_01'')
   \<and> \<not> fresh [] (cacheKey (PlayerSearch ''Nikita_01'')) CACHE_DURATION 0
   \<and> \<not> fresh [] (cacheKey (PlayerProfile ''Nikita_01'')) CACHE_DURATION 0
   \<and> \<not> fresh [] (cacheKey (MarketItem ''Nikita_01'')) CACHE_DURATION 0
   \<and> answering (GqlEnvelope (Some [Some ''Rate limit exceeded'']) None)
        (JObj [(''username'', JStr ''Nikita_01'')]) 0
       = (Fulfilled (GqlEnvelope (Some [Some ''Rate limit exceeded'']) None), 1)
   \<and> answering (GqlEnvelope (Some [Some ''Rate limit exceeded'']) None)
        (JObj [(''id'', JStr ''Nikita_01'')]) 0
       = (Fulfilled (GqlEnvelope (Some [Some ''Rate limit exceeded'']) None), 1)
   \<and> gql_failed (Fulfilled (GqlEnvelope (Some [Some ''Rate limit exceeded'']) None))
   \<and> (\<exists>msg. msg \<noteq> [] \<and>
        playerSearch (QString ''Nikita_01'')
          (answering (GqlEnvelope (Some [Some ''Rate limit exceeded'']) None)) 0 7 ([], 0)
        = (failure 500 msg, ([], 1)))
   \<and> (\<exists>msg. msg \<noteq> [] \<and>
        playerProfile ''Nikita_01''
          (answering (GqlEnvelope (Some [Some ''Rate limit exceeded'']) None)) 0 7 ([], 0)
        = (failure 500 msg, ([], 1)))
   \<and> (\<exists>msg. msg \<noteq> [] \<and>
        marketItem ''Nikita_01''
          (answering (GqlEnvelope (Some [Some ''Rate limit exceeded'']) None)) 0 7 ([], 0)
        = (failure 500 msg, ([], 1)))"
proof -
  let ?env = "GqlEnvelope (Some [Some ''Rate limit exceeded'']) None"
  have a: "validateUsername (QString ''Nikita_01'')"
    by (simp add: username_char_def)
  have b1: "\<not> fresh [] (cacheKey (PlayerSearch ''Nikita_01'')) CACHE_DURATION 0"
    and b2: "\<not> fresh [] (cacheKey (PlayerProfile ''Nikita_01'')) CACHE_DURATION 0"
    and b3: "\<not> fresh [] (cacheKey (MarketItem ''Nikita_01'')) CACHE_DURATION 0"
    by (simp_all add: fresh_def cache_get_def)
  have c1: "answering ?env (JObj [(''username'', JStr ''Nikita_01'')]) 0 = (Fulfilled ?env, 1)"
    and c2: "answering ?env (JObj [(''id'', JStr ''Nikita_01'')]) 0 = (Fulfilled ?env, 1)"
    by (simp_all add: answering_def)
  have d: "gql_failed (Fulfilled ?env)"
    by simp
  note t = hard_path_failure_reported
             [of "''Nikita_01''" "[]" 0 "answering ?env" 0 "Fulfilled ?env" 1 7 "''Nikita_01''"]
  from t a b1 c1 d have e1: "\<exists>msg. msg \<noteq> [] \<and>
        playerSearch (QString ''Nikita_01'') (answering ?env) 0 7 ([], 0) = (failure 500 msg, ([], 1))"
    by blast
  from t b2 c2 d have e2: "\<exists>msg. msg \<noteq> [] \<and>
        playerProfile ''Nikita_01'' (answering ?env) 0 7 ([], 0) = (failure 500 msg, ([], 1))"
    by blast
  from t b3 c2 d have e3: "\<exists>msg. msg \<noteq> [] \<and>
        marketItem ''Nikita_01'' (answering ?env) 0 7 ([], 0) = (failure 500 msg, ([], 1))"
    by blast
  from a b1 b2 b3 c1 c2 d e1 e2 e3 show ?thesis
    by (intro conjI)
qed

section \<open>Upstream failure in the ban check\<close>

lemma banCheck_fetch_failed:
  "axios_get (JObj [(''username'', JStr name)]) u = (r, u1) \<Longrightarrow> ban_failed r \<Longrightarrow>
   banCheck_fetch axios_get name u = (Inr (offline name), u1)"
  by (cases r rule: ban_failed.cases) (simp_all add: banCheck_fetch_def)

lemma banCheck_first:
  assumes "validateUsername (QString name)"
    and "\<not> fresh c (cacheKey (BanCheck name)) BAN_CHECK_DURATION now"
    and "axios_get (JObj [(''username'', JStr name)]) u = (r, u1)"
    and "ban_failed r"
  shows "banCheck (QString name) axios_get now later (c, u)
           = (success (offline name),
              (cache_set (cacheKey (BanCheck name)) \<lparr>data = offline name, timestamp = later\<rparr> c, u1))"
proof -
  have "getFromCache (cacheKey (BanCheck name)) (banCheck_fetch axios_get name)
          BAN_CHECK_DURATION now later (c, u)
        = (Inr (offline name),
           (cache_set (cacheKey (BanCheck name)) \<lparr>data = offline name, timestamp = later\<rparr> c, u1))"
    using assms(2) banCheck_fetch_failed [of axios_get name u r u1, OF assms(3,4)]
    by (simp add: getFromCache_miss store_result_resolve del: cacheKey.simps)
  with assms(1) valid_nonempty [OF assms(1)] show ?thesis
    by (simp add: banCheck_def del: validateUsername.simps cacheKey.simps)
qed

text \<open>
  C7. For a valid user name with no fresh entry in the cache, when the call
  to the ban service fails the handler answers 200 with \<^verbatim>\<open>success: true\<close> and
  the fallback object as \<^verbatim>\<open>data\<close>: \<^verbatim>\<open>isBanned: false\<close>, \<^verbatim>\<open>source: "offline"\<close> and a
  \<^verbatim>\<open>note\<close> that the service is unavailable. No error is reported.
\<close>

theorem banCheck_upstream_failure_degrades:
  assumes "validateUsername (QString name)"
    and "\<not> fresh c (cacheKey (BanCheck name)) BAN_CHECK_DURATION now"
    and "axios_get (JObj [(''username'', JStr name)]) u = (r, u1)"
    and "ban_failed r"
  shows "fst (banCheck (QString name) axios_get now later (c, u)) = success (offline name)
       \<and> fst (success (offline name)) = 200
       \<and> json_field (snd (success (offline name))) ''success'' = Some (JBool True)
       \<and> json_field (snd (success (offline name))) ''error'' = None
       \<and> json_field (snd (success (offline name))) ''data'' = Some (offline name)
       \<and> json_field (offline name) ''isBanned'' = Some (JBool False)
       \<and> json_field (offline name) ''source'' = Some (JStr ''offline'')
       \<and> json_field (offline name) ''note''
            = Some (JStr ''Ban check service unavailable, player status unknown'')"
  using banCheck_first [of name c now axios_get u r u1 later, OF assms] by (simp add: success_def offline_def)

theorem banCheck_upstream_failure_degrades_witness:
  "validateUsername (QString ''Nikita_01'')
   \<and> \<not> fresh [] (cacheKey (BanCheck ''Nikita_01'')) BAN_CHECK_DURATION 1000
   \<and> rejecting ''timeout of 8000ms exceeded'' (JObj [(''username'', JStr ''Nikita_01'')]) 0
        = (Rejected ''timeout of 8000ms exceeded'', 1)
   \<and> ban_failed (Rejected ''timeout of 8000ms exceeded'')
   \<and> fst (banCheck (QString ''Nikita_01'') (rejecting ''timeout of 8000ms exceeded'') 1000 9000 ([], 0))
        = (200, JObj [(''success'', JBool True),
             (''data'', JObj [(''username'', JStr ''Nikita_01''),
                (''isBanned'', JBool False),
                (''banReason'', JNull),
                (''banDate'', JNull),
                (''banType'', JStr ''unknown''),
                (''source'', JStr ''offline''),
                (''note'', JStr ''Ban check service unavailable, player status unknown'')])])"
proof -
  have a: "validateUsername (QString ''Nikita_01'')"
    by (simp add: username_char_def)
  have b: "\<not> fresh [] (cacheKey (BanCheck ''Nikita_01'')) BAN_CHECK_DURATION 1000"
    by (simp add: fresh_def cache_get_def)
  have c: "rejecting ''timeout of 8000ms exceeded'' (JObj [(''username'', JStr ''Nikita_01'')]) 0
             = (Rejected ''timeout of 8000ms exceeded'', 1::nat)"
    by (simp add: rejecting_def)
  have d: "ban_failed (Rejected ''timeout of 8000ms exceeded'')"
    by simp
  from banCheck_upstream_failure_degrades
         [of "''Nikita_01''" "[]" 1000 "rejecting ''timeout of 8000ms exceeded''" 0 "Rejected ''timeout of 8000ms exceeded''" 1 9000,
          OF a b c d]
  have "fst (banCheck (QString ''Nikita_01'') (rejecting ''timeout of 8000ms exceeded'') 1000 9000 ([], 0))
          = success (offline ''Nikita_01'')"
    by (rule conjunct1)
  with a b c d show ?thesis
    by (simp only: success_def offline_def simp_thms)
qed

text \<open>
  C10. The fallback object is stored under the key of the ban check like any
  other result. A later ban check for the same user name, less than 15
  minutes after the store, returns the fallback object from the cache and
  changes neither the cache nor the world outside, whatever the ban service
  would have answered: the service is not contacted.
\<close>

theorem banCheck_degraded_is_cached:
  assumes "validateUsername (QString name)"
    and "\<not> fresh c (cacheKey (BanCheck name)) BAN_CHECK_DURATION now"
    and "axios_get (JObj [(''username'', JStr name)]) u = (r, u1)"
    and "ban_failed r"
    and "now2 - later < 15 * 60 * 1000"
  shows "snd (banCheck (QString name) axios_get now later (c, u))
           = (cache_set (cacheKey (BanCheck name)) \<lparr>data = offline name, timestamp = later\<rparr> c, u1)
       \<and> banCheck (QString name) axios_get2 now2 later2
            (snd (banCheck (QString name) axios_get now later (c, u)))
           = (success (offline name), snd (banCheck (QString name) axios_get now later (c, u)))"
proof -
  let ?key = "cacheKey (BanCheck name)"
  let ?c1 = "cache_set ?key \<lparr>data = offline name, timestamp = later\<rparr> c"
  have s1: "snd (banCheck (QString name) axios_get now later (c, u)) = (?c1, u1)"
    using banCheck_first [of name c now axios_get u r u1 later, OF assms(1-4)] by simp
  have "cache_get ?c1 ?key = Some \<lparr>data = offline name, timestamp = later\<rparr>"
    by (simp add: cache_get_set)
  from getFromCache_hit [OF this, of now2 BAN_CHECK_DURATION] assms(5)
  have "getFromCache ?key (banCheck_fetch axios_get2 name) BAN_CHECK_DURATION now2 later2 (?c1, u1)
          = (Inr (offline name), (?c1, u1))"
    by (simp add: BAN_CHECK_DURATION_def)
  with assms(1) valid_nonempty [OF assms(1)]
  have "banCheck (QString name) axios_get2 now2 later2 (?c1, u1) = (success (offline name), (?c1, u1))"
    by (simp add: banCheck_def del: validateUsername.simps cacheKey.simps)
  with s1 show ?thesis
    by simp
qed

theorem banCheck_degraded_is_cached_witness:
  "validateUsername (QString ''Nikita_01'')
   \<and> \<not> fresh [] (cacheKey (BanCheck ''Nikita_01'')) BAN_CHECK_DURATION 1000
   \<and> rejecting ''timeout of 8000ms exceeded'' (JObj [(''username'', JStr ''Nikita_01'')]) 0
        = (Rejected ''timeout of 8000ms exceeded'', 1)
   \<and> ban_failed (Rejected ''timeout of 8000ms exceeded'')
   \<and> (908999::int) - 9000 < 15 * 60 * 1000
   \<and> snd (snd (banCheck (QString ''Nikita_01'') (rejecting ''timeout of 8000ms exceeded'') 1000 9000 ([], 0))) = 1
   \<and> banCheck (QString ''Nikita_01'')
        (answering (Some (BanData (JBool True) JNull JNull JNull JNull))) 908999 909500
        (snd (banCheck (QString ''Nikita_01'') (rejecting ''timeout of 8000ms exceeded'') 1000 9000 ([], 0)))
      = (success (offline ''Nikita_01''),
         ([(''ban_check_nikita_01'', \<lparr>data = offline ''Nikita_01'', timestamp = 9000\<rparr>)], 1))"
proof -
  have a: "validateUsername (QString ''Nikita_01'')"
    by (simp add: username_char_def)
  have b: "\<not> fresh [] (cacheKey (BanCheck ''Nikita_01'')) BAN_CHECK_DURATION 1000"
    by (simp add: fresh_def cache_get_def)
  have c: "rejecting ''timeout of 8000ms exceeded'' (JObj [(''username'', JStr ''Nikita_01'')]) 0
             = (Rejected ''timeout of 8000ms exceeded'', 1::nat)"
    by (simp add: rejecting_def)
  have d: "ban_failed (Rejected ''timeout of 8000ms exceeded'')"
    by simp
  have e: "(908999::int) - 9000 < 15 * 60 * 1000"
    by simp
  have k: "cacheKey (BanCheck ''Nikita_01'') = ''ban_check_nikita_01''"
    by (simp add: toLowerCase_def lower_char_def char_of_eq_iff)
  note t = banCheck_degraded_is_cached
         [of "''Nikita_01''" "[]" 1000 "rejecting ''timeout of 8000ms exceeded''" 0 "Rejected ''timeout of 8000ms exceeded''" 1
             908999 9000 "answering (Some (BanData (JBool True) JNull JNull JNull JNull))" 909500,
          OF a b c d e]
  have s1: "snd (banCheck (QString ''Nikita_01'') (rejecting ''timeout of 8000ms exceeded'') 1000 9000 ([], 0))
              = ([(''ban_check_nikita_01'', \<lparr>data = offline ''Nikita_01'', timestamp = 9000\<rparr>)], 1)"
    using t [THEN conjunct1] by (simp only: k cache_set.simps)
  have f: "snd (snd (banCheck (QString ''Nikita_01'') (rejecting ''timeout of 8000ms exceeded'') 1000 9000 ([], 0))) = 1"
    by (simp only: s1 snd_conv)
  have g: "banCheck (QString ''Nikita_01'')
             (answering (Some (BanData (JBool True) JNull JNull JNull JNull))) 908999 909500
             (snd (banCheck (QString ''Nikita_01'') (rejecting ''timeout of 8000ms exceeded'') 1000 9000 ([], 0)))
           = (success (offline ''Nikita_01''),
              ([(''ban_check_nikita_01'', \<lparr>data = offline ''Nikita_01'', timestamp = 9000\<rparr>)], 1))"
    by (subst t [THEN conjunct2]) (simp only: s1)
  from a b c d e f g show ?thesis
    by (intro conjI)
qed

section \<open>Properties of the rate limiter\<close>

lemma admit_in_window:
  "st clientId = Some w \<Longrightarrow> \<not> now - windowStart w > window \<Longrightarrow>
   admit window limit clientId now st
     = (count w + 1 \<le> limit, st(clientId \<mapsto> w\<lparr>count := count w + 1\<rparr>))"
  by (simp add: admit_def)

lemma admit_new_window:
  "opens_window window st clientId now \<Longrightarrow>
   admit window limit clientId now st
     = (1 \<le> limit, st(clientId \<mapsto> \<lparr>count = 1, windowStart = now\<rparr>))"
  by (auto simp: admit_def opens_window_def split: option.splits)

lemma admit_all_in_window:
  "st clientId = Some \<lparr>count = k, windowStart = t0\<rparr> \<Longrightarrow>
   \<forall>t \<in> set ts. \<not> t - t0 > window \<Longrightarrow>
   fst (admit_all window limit clientId ts st) = map (\<lambda>i. k + i < limit) [0..<length ts]
   \<and> snd (admit_all window limit clientId ts st) clientId
       = Some \<lparr>count = k + length ts, windowStart = t0\<rparr>"
proof (induction ts arbitrary: k st)
  case Nil
  then show ?case by simp
next
  case (Cons t ts)
  let ?st = "st(clientId \<mapsto> \<lparr>count = Suc k, windowStart = t0\<rparr>)"
  from Cons.prems have a: "admit window limit clientId t st = (Suc k \<le> limit, ?st)"
    by (simp add: admit_in_window)
  have b: "?st clientId = Some \<lparr>count = Suc k, windowStart = t0\<rparr>"
    by simp
  have p: "\<forall>t \<in> set ts. \<not> t - t0 > window"
    using Cons.prems(2) by simp
  note step = Cons.IH [of ?st "Suc k", OF b p]
  have ih: "fst (admit_all window limit clientId ts ?st) = map (\<lambda>i. Suc k + i < limit) [0..<length ts]"
    using step by (rule conjunct1)
  have ih2: "snd (admit_all window limit clientId ts ?st) clientId
               = Some \<lparr>count = Suc k + length ts, windowStart = t0\<rparr>"
    using step by (rule conjunct2)
  have "map (\<lambda>i. k + i < limit) [0..<length (t # ts)]
          = (k < limit) # map (\<lambda>i. Suc k + i < limit) [0..<length ts]"
    by (simp add: map_upt_Suc del: upt_Suc)
  with a ih ih2 show ?case
    by (simp add: split_beta Suc_le_eq)
qed

lemma count_admitted: "length (filter id (map (\<lambda>i. i < limit) [0..<n])) = min n limit"
  by (induction n) auto

lemma admit_all_from_open:
  assumes "opens_window window st clientId t0"
    and "\<forall>t \<in> set ts. \<not> t - t0 > window"
  shows "fst (admit_all window limit clientId (t0 # ts) st)
           = map (\<lambda>i. i < limit) [0..<Suc (length ts)]
       \<and> snd (admit_all window limit clientId (t0 # ts) st) clientId
           = Some \<lparr>count = Suc (length ts), windowStart = t0\<rparr>"
proof -
  let ?st = "st(clientId \<mapsto> \<lparr>count = 1, windowStart = t0\<rparr>)"
  have a: "admit window limit clientId t0 st = (1 \<le> limit, ?st)"
    using assms(1) by (rule admit_new_window)
  have b: "?st clientId = Some \<lparr>count = 1, windowStart = t0\<rparr>"
    by simp
  note rest = admit_all_in_window [of ?st clientId 1 t0 ts window limit, OF b assms(2)]
  have r: "fst (admit_all window limit clientId ts ?st) = map (\<lambda>i. 1 + i < limit) [0..<length ts]"
    using rest by (rule conjunct1)
  have s: "snd (admit_all window limit clientId ts ?st) clientId
             = Some \<lparr>count = 1 + length ts, windowStart = t0\<rparr>"
    using rest by (rule conjunct2)
  have m: "map (\<lambda>i. i < limit) [0..<Suc (length ts)]
             = (0 < limit) # map (\<lambda>i. 1 + i < limit) [0..<length ts]"
    by (simp add: map_upt_Suc del: upt_Suc)
  have "fst (admit_all window limit clientId (t0 # ts) st)
          = map (\<lambda>i. i < limit) [0..<Suc (length ts)]"
    unfolding m using a r by (simp add: split_beta Suc_le_eq)
  moreover have "snd (admit_all window limit clientId (t0 # ts) st) clientId
          = Some \<lparr>count = Suc (length ts), windowStart = t0\<rparr>"
    using a s by (simp add: split_beta)
  ultimately show ?thesis
    by simp
qed

text \<open>
  The limiter of the source: of the requests of one client inside one window
  of 15 minutes, the first 100 are admitted and no other.
\<close>

lemma limiter_hundred:
  assumes "opens_window windowMs st clientId t0"
    and "\<forall>t \<in> set ts. \<not> t - t0 > 15 * 60 * 1000"
  shows "fst (limiter clientId t0 st)
       \<and> fst (admit_all windowMs max_requests clientId (t0 # ts) st)
           = map (\<lambda>i. i < 100) [0..<Suc (length ts)]"
proof -
  from assms(2) have "\<forall>t \<in> set ts. \<not> t - t0 > windowMs"
    by (simp add: windowMs_def)
  from admit_all_from_open [OF assms(1) this, of max_requests]
  have "fst (admit_all windowMs max_requests clientId (t0 # ts) st)
          = map (\<lambda>i. i < 100) [0..<Suc (length ts)]"
    by (simp add: max_requests_def)
  moreover from admit_new_window [OF assms(1), of max_requests]
  have "fst (limiter clientId t0 st)"
    by (simp add: limiter_def max_requests_def)
  ultimately show ?thesis
    by simp
qed

text \<open>
  C8. Take a client whose request at \<open>t0\<close> opens a window, followed by requests
  at times \<open>ts\<close> inside that window. Request number \<open>i\<close> (from 0) is admitted
  exactly when \<open>i < limit\<close>: the first \<open>limit\<close> requests are admitted, the next
  one and all later ones are rejected, each request adds one to the count. A
  request after the window has elapsed resets the window to count 1, starting
  at that request, and is admitted (when the limit is not 0).
\<close>

theorem rate_limiter_window:
  assumes "opens_window window st clientId t0"
    and "\<forall>t \<in> set ts. \<not> t - t0 > window"
    and "t' - t0 > window"
  shows "fst (admit_all window limit clientId (t0 # ts) st)
           = map (\<lambda>i. i < limit) [0..<Suc (length ts)]
       \<and> length (filter id (fst (admit_all window limit clientId (t0 # ts) st)))
           = min (Suc (length ts)) limit
       \<and> snd (admit_all window limit clientId (t0 # ts) st) clientId
           = Some \<lparr>count = Suc (length ts), windowStart = t0\<rparr>
       \<and> fst (admit window limit clientId t' (snd (admit_all window limit clientId (t0 # ts) st)))
           = (0 < limit)
       \<and> snd (admit window limit clientId t' (snd (admit_all window limit clientId (t0 # ts) st))) clientId
           = Some \<lparr>count = 1, windowStart = t'\<rparr>"
proof -
  let ?run = "admit_all window limit clientId (t0 # ts) st"
  note run = admit_all_from_open [OF assms(1,2), of limit]
  have 1: "fst ?run = map (\<lambda>i. i < limit) [0..<Suc (length ts)]"
    using run by (rule conjunct1)
  have 2: "snd ?run clientId = Some \<lparr>count = Suc (length ts), windowStart = t0\<rparr>"
    using run by (rule conjunct2)
  have 3: "length (filter id (fst ?run)) = min (Suc (length ts)) limit"
    unfolding 1 by (rule count_admitted)
  have "opens_window window (snd ?run) clientId t'"
    using 2 assms(3) by (simp add: opens_window_def)
  from admit_new_window [OF this, of limit]
  have 4: "admit window limit clientId t' (snd ?run)
             = (1 \<le> limit, (snd ?run)(clientId \<mapsto> \<lparr>count = 1, windowStart = t'\<rparr>))" .
  from 1 2 3 4 show ?thesis
    by (simp add: Suc_le_eq)
qed

theorem rate_limiter_window_witness:
  "opens_window 1000 Map.empty ''10.0.0.7'' 0
   \<and> \<not> (10 :: int) - 0 > 1000
   \<and> \<not> (1000 :: int) - 0 > 1000
   \<and> (1001 :: int) - 0 > 1000
   \<and> fst (admit_all 1000 2 ''10.0.0.7'' [0, 10, 1000] Map.empty) = [True, True, False]
   \<and> fst (admit 1000 2 ''10.0.0.7'' 1001 (snd (admit_all 1000 2 ''10.0.0.7'' [0, 10, 1000] Map.empty)))"
proof -
  have a: "opens_window 1000 Map.empty ''10.0.0.7'' 0"
    by (simp add: opens_window_def)
  have b1: "\<not> (10 :: int) - 0 > 1000" and b2: "\<not> (1000 :: int) - 0 > 1000"
    by simp_all
  from b1 b2 have b: "\<forall>t \<in> set [10, 1000 :: int]. \<not> t - 0 > 1000"
    by simp
  have c: "(1001 :: int) - 0 > 1000"
    by simp
  note t = rate_limiter_window [OF a b c, of 2]
  have e: "map (\<lambda>i. i < (2::nat)) [0..<Suc (length [10, 1000 :: int])] = [True, True, False]"
    by (simp add: upt_rec)
  from t [THEN conjunct1] e
  have 1: "fst (admit_all 1000 2 ''10.0.0.7'' [0, 10, 1000] Map.empty) = [True, True, False]"
    by simp
  from t have 2: "fst (admit 1000 2 ''10.0.0.7'' 1001 (snd (admit_all 1000 2 ''10.0.0.7'' [0, 10, 1000] Map.empty)))"
    by simp
  from a b1 b2 c 1 2 show ?thesis
    by (intro conjI)
qed

end
